theory Spec2Isabelle
  imports Complex_Main
begin

section \<open>The modelling notebook of russian-car-plates\<close>

text \<open>
  The development follows \<^verbatim>\<open>data_modeling.ipynb\<close> cell by cell: the selection of
  features and target, \<^verbatim>\<open>detect_columns\<close>, the metric \<^verbatim>\<open>smape\<close>, the
  cross-validated training loop, the inverse-error ensemble and the submission.

  Conventions.
  \<^item> A Python exception is a value of \<open>py_error\<close>; a computation that may raise returns
    \<open>py_error + 'a\<close>, with \<open>Inl\<close> for the exception.
  \<^item> A finite float64 is an exact real number: rounding is not represented. The special
    values \<open>inf\<close>, \<open>-inf\<close> and \<open>nan\<close>, which numpy produces (with a warning,
    not an exception) when it divides by zero or takes the mean of an empty array, are the
    further constructors of \<open>npfloat\<close>. The exponential leaves the range of float64
    for arguments of moderate size, so \<^verbatim>\<open>np.exp\<close> has its overflow to \<open>inf\<close> and its
    underflow to \<open>0.0\<close>; the sums, products and quotients of the notebook are taken
    within the range. Zero is taken to be \<open>+0.0\<close>, and an integer or floating-point
    column of fewer than 64 bits is not distinguished from a column of 64 bits.
  \<^item> The estimators, the target binning and the fold splitter belong to scikit-learn and
    the boosting libraries; they are parameters of the model.
\<close>

subsection \<open>Exceptions and float64 values\<close>

datatype py_error =
    KeyError "string list"
  | ValueError
  | IndexError
  | AttributeError
  | TypeError
  | LibraryError string

datatype npfloat = Fin real | PInf | NInf | NaN

definition inf_of_sign :: "real \<Rightarrow> npfloat" where
  "inf_of_sign s = (if s > 0 then PInf else if s < 0 then NInf else NaN)"

fun np_add :: "npfloat \<Rightarrow> npfloat \<Rightarrow> npfloat" where
  "np_add (Fin a) (Fin b) = Fin (a + b)"
| "np_add NaN _ = NaN"
| "np_add _ NaN = NaN"
| "np_add PInf NInf = NaN"
| "np_add NInf PInf = NaN"
| "np_add PInf _ = PInf"
| "np_add _ PInf = PInf"
| "np_add NInf _ = NInf"
| "np_add _ NInf = NInf"

fun np_mul :: "npfloat \<Rightarrow> npfloat \<Rightarrow> npfloat" where
  "np_mul (Fin a) (Fin b) = Fin (a * b)"
| "np_mul NaN _ = NaN"
| "np_mul _ NaN = NaN"
| "np_mul (Fin a) PInf = inf_of_sign a"
| "np_mul (Fin a) NInf = inf_of_sign (- a)"
| "np_mul PInf (Fin b) = inf_of_sign b"
| "np_mul NInf (Fin b) = inf_of_sign (- b)"
| "np_mul PInf PInf = PInf"
| "np_mul PInf NInf = NInf"
| "np_mul NInf PInf = NInf"
| "np_mul NInf NInf = PInf"

fun np_div :: "npfloat \<Rightarrow> npfloat \<Rightarrow> npfloat" where
  "np_div (Fin a) (Fin b) = (if b = 0 then inf_of_sign a else Fin (a / b))"
| "np_div NaN _ = NaN"
| "np_div _ NaN = NaN"
| "np_div (Fin a) PInf = Fin 0"
| "np_div (Fin a) NInf = Fin 0"
| "np_div PInf (Fin b) = (if b \<ge> 0 then PInf else NInf)"
| "np_div NInf (Fin b) = (if b \<ge> 0 then NInf else PInf)"
| "np_div PInf PInf = NaN"
| "np_div PInf NInf = NaN"
| "np_div NInf PInf = NaN"
| "np_div NInf NInf = NaN"

text \<open>
  \<^verbatim>\<open>np.exp\<close> on float64. The result is \<open>inf\<close> where the exponential is at least
  \<^verbatim>\<open>2**1024\<close>, beyond the largest float64 (from \<open>x\<close> about 709.78), and \<open>0.0\<close> where
  it is at most \<^verbatim>\<open>2**-1075\<close>, half of the smallest positive float64 (up to \<open>x\<close> about
  -745.13);
  in between the exact value stands for the rounded one.
\<close>

definition exp_overflow :: real where
  "exp_overflow = 1024 * ln 2"

definition exp_underflow :: real where
  "exp_underflow = - (1075 * ln 2)"

fun np_exp :: "npfloat \<Rightarrow> npfloat" where
  "np_exp (Fin x) =
     (if exp_overflow \<le> x then PInf else if x \<le> exp_underflow then Fin 0 else Fin (exp x))"
| "np_exp PInf = PInf"
| "np_exp NInf = Fin 0"
| "np_exp NaN = NaN"

text \<open>\<^verbatim>\<open>np.mean\<close> of a one-dimensional array; the mean of an empty array is \<open>nan\<close>.\<close>

definition np_mean :: "real list \<Rightarrow> npfloat" where
  "np_mean xs = (if xs = [] then NaN else Fin (sum_list xs / real (length xs)))"

text \<open>
  An elementwise binary operation on two one-dimensional arrays: equal lengths pair up,
  an array of length one is broadcast, any other pair of lengths raises.
\<close>

definition np_binop :: "('a \<Rightarrow> 'b \<Rightarrow> 'c) \<Rightarrow> 'a list \<Rightarrow> 'b list \<Rightarrow> py_error + 'c list" where
  "np_binop f xs ys =
     (if length xs = length ys then Inr (map2 f xs ys)
      else if length xs = 1 then Inr (map (f (hd xs)) ys)
      else if length ys = 1 then Inr (map (\<lambda>x. f x (hd ys)) xs)
      else Inl ValueError)"

definition and_then :: "'e + 'a \<Rightarrow> ('a \<Rightarrow> 'e + 'b) \<Rightarrow> 'e + 'b" where
  "and_then m f = (case m of Inl e \<Rightarrow> Inl e | Inr x \<Rightarrow> f x)"

subsection \<open>Tables\<close>

text \<open>
  A table has a number of rows and an ordered list of labelled columns; a column has a numpy
  storage type and one cell per row, \<open>None\<close> for a missing value. A boolean cell is the
  number 0 or 1, as in Python, where \<^verbatim>\<open>True == 1\<close>.
\<close>

datatype np_dtype =
    dt_bool | dt_int | dt_uint | dt_float | dt_complex | dt_timedelta | dt_datetime
  | dt_object | dt_bytes | dt_str | dt_void

text \<open>The one-character code \<^verbatim>\<open>dtype.kind\<close>.\<close>

fun kind :: "np_dtype \<Rightarrow> string" where
  "kind dt_bool = ''b''"
| "kind dt_int = ''i''"
| "kind dt_uint = ''u''"
| "kind dt_float = ''f''"
| "kind dt_complex = ''c''"
| "kind dt_timedelta = ''m''"
| "kind dt_datetime = ''M''"
| "kind dt_object = ''O''"
| "kind dt_bytes = ''S''"
| "kind dt_str = ''U''"
| "kind dt_void = ''V''"

datatype cell = Num real | Text string

record series =
  dtype :: np_dtype
  cells :: "cell option list"

record frame =
  nrows :: nat
  columns :: "(string \<times> series) list"

text \<open>The invariant of a table: every column has one cell per row.\<close>

definition wf_frame :: "frame \<Rightarrow> bool" where
  "wf_frame df = (\<forall>(c, s) \<in> set (columns df). length (cells s) = nrows df)"

text \<open>
  \<^verbatim>\<open>df[label]\<close>: a missing label raises \<^verbatim>\<open>KeyError\<close>; a label that several columns
  carry selects a sub-table, not a column.
\<close>

datatype selection = Column series | SubFrame "series list"

definition getitem :: "frame \<Rightarrow> string \<Rightarrow> py_error + selection" where
  "getitem df label =
     (case filter (\<lambda>(c, s). c = label) (columns df) of
        [] \<Rightarrow> Inl (KeyError [label])
      | [(c, s)] \<Rightarrow> Inr (Column s)
      | cs \<Rightarrow> Inr (SubFrame (map snd cs)))"

text \<open>
  \<^verbatim>\<open>df.drop(columns=labels, errors=...)\<close>: with \<^verbatim>\<open>errors='raise'\<close> a label that is
  not a column raises \<^verbatim>\<open>KeyError\<close>; with \<^verbatim>\<open>errors='ignore'\<close> only the labels that
  exist are dropped.
\<close>

datatype errors_mode = Raise | Ignore

definition df_drop :: "frame \<Rightarrow> string list \<Rightarrow> errors_mode \<Rightarrow> py_error + frame" where
  "df_drop df labels errors =
     (let missing = filter (\<lambda>l. l \<notin> fst ` set (columns df)) labels in
      if errors = Raise \<and> missing \<noteq> [] then Inl (KeyError missing)
      else Inr (df\<lparr>columns := filter (\<lambda>(c, s). c \<notin> set labels) (columns df)\<rparr>))"

definition TARGET :: string where
  "TARGET = ''log_price''"

definition DROP_COLS :: "string list" where
  "DROP_COLS =
     [''id'', ''plate'', ''price'', ''log_price'', ''is_train'',
      ''is_number_000'', ''is_number_444'', ''is_number_222'', ''is_number_700'',
      ''is_number_555'', ''quarter'', ''day_of_week'', ''is_weekend'',
      ''prestige_score'',
      ''is_number_300'', ''is_number_333'', ''is_number_400'']"

definition N_SPLITS :: nat where
  "N_SPLITS = 10"

subsection \<open>Automatic column detection\<close>

text \<open>
  \<^verbatim>\<open>X[c].dtype\<close> and \<^verbatim>\<open>X[c].nunique()\<close>, the number of distinct values that are not
  missing. A sub-table has no attribute \<^verbatim>\<open>dtype\<close>, and its \<^verbatim>\<open>nunique()\<close> is a column
  of counts, whose comparison has no truth value.
\<close>

definition col_dtype :: "frame \<Rightarrow> string \<Rightarrow> py_error + np_dtype" where
  "col_dtype X c =
     and_then (getitem X c)
       (\<lambda>sel. case sel of Column s \<Rightarrow> Inr (dtype s) | SubFrame ss \<Rightarrow> Inl AttributeError)"

definition nunique :: "series \<Rightarrow> nat" where
  "nunique s = length (remdups (filter (\<lambda>v. v \<noteq> None) (cells s)))"

definition col_nunique :: "frame \<Rightarrow> string \<Rightarrow> py_error + nat" where
  "col_nunique X c =
     and_then (getitem X c)
       (\<lambda>sel. case sel of Column s \<Rightarrow> Inr (nunique s) | SubFrame ss \<Rightarrow> Inl ValueError)"

text \<open>A list comprehension whose condition may raise.\<close>

fun filter_raising :: "('a \<Rightarrow> py_error + bool) \<Rightarrow> 'a list \<Rightarrow> py_error + 'a list" where
  "filter_raising p [] = Inr []"
| "filter_raising p (x # xs) =
     and_then (p x) (\<lambda>b.
     and_then (filter_raising p xs) (\<lambda>r.
     Inr (if b then x # r else r)))"

text \<open>The test \<^verbatim>\<open>k in 'if'\<close> on strings: \<open>k\<close> occurs in \<^verbatim>\<open>'if'\<close> as a substring.\<close>

definition in_if :: "string \<Rightarrow> bool" where
  "in_if k = (k \<in> {[], ''i'', ''f'', ''if''})"

record column_sets =
  num_cols :: "string list"
  bool_cols :: "string list"
  cat_low :: "string list"
  cat_mid :: "string list"
  cat_high :: "string list"

definition detect_columns :: "frame \<Rightarrow> py_error + column_sets" where
  "detect_columns X =
     (let names = map fst (columns X) in
      and_then (filter_raising (\<lambda>c. and_then (col_dtype X c) (\<lambda>d. Inr (d = dt_bool))) names)
        (\<lambda>bools.
      and_then (filter_raising
                 (\<lambda>c. and_then (col_dtype X c) (\<lambda>d. Inr (in_if (kind d) \<and> c \<notin> set bools))) names)
        (\<lambda>nums.
      let cat_cols = filter (\<lambda>c. c \<notin> set (nums @ bools)) names in
      and_then (filter_raising (\<lambda>c. and_then (col_nunique X c) (\<lambda>u. Inr (u \<le> 20))) cat_cols)
        (\<lambda>low.
      and_then (filter_raising
                 (\<lambda>c. and_then (col_nunique X c) (\<lambda>u. Inr (20 < u \<and> u \<le> 200))) cat_cols)
        (\<lambda>mid.
      and_then (filter_raising (\<lambda>c. and_then (col_nunique X c) (\<lambda>u. Inr (u > 200))) cat_cols)
        (\<lambda>high.
      Inr \<lparr>num_cols = nums, bool_cols = bools, cat_low = low, cat_mid = mid,
           cat_high = high\<rparr>))))))"

subsection \<open>The metric\<close>

text \<open>Selection by a boolean mask, \<^verbatim>\<open>a[mask]\<close>.\<close>

definition compress :: "bool list \<Rightarrow> 'a list \<Rightarrow> 'a list" where
  "compress m xs = map snd (filter fst (zip m xs))"

text \<open>
  Assignment through a boolean mask, \<^verbatim>\<open>a[mask] = vs\<close>: the positions where the mask
  holds take the values of \<open>vs\<close> in order. The number of values equals the number of
  selected positions at the one call site; with too few values the position is left as it was.
\<close>

fun putmask :: "'a list \<Rightarrow> bool list \<Rightarrow> 'a list \<Rightarrow> 'a list" where
  "putmask [] ms vs = []"
| "putmask (a # as) [] vs = a # as"
| "putmask (a # as) (m # ms) vs =
     (if m then (case vs of [] \<Rightarrow> a # putmask as ms [] | v # vs' \<Rightarrow> v # putmask as ms vs')
      else a # putmask as ms vs)"

text \<open>The array \<^verbatim>\<open>smape_term\<close> of the source, and the metric itself.\<close>

definition smape_term :: "real list \<Rightarrow> real list \<Rightarrow> py_error + real list" where
  "smape_term y_true y_pred =
     (case np_binop (\<lambda>t p. \<bar>t\<bar> + \<bar>p\<bar>) y_true y_pred of
        Inl e \<Rightarrow> Inl e
      | Inr s \<Rightarrow>
          (let denominator = map (\<lambda>d. d / 2) s in
           case np_binop (\<lambda>t p. \<bar>t - p\<bar>) y_true y_pred of
             Inl e \<Rightarrow> Inl e
           | Inr diff \<Rightarrow>
               (let zeros = map (\<lambda>_. 0) diff;
                    non_zero_denom = map (\<lambda>d. d \<noteq> 0) denominator
                in Inr (putmask zeros non_zero_denom
                         (map2 (/) (compress non_zero_denom diff)
                                   (compress non_zero_denom denominator))))))"

definition smape :: "real list \<Rightarrow> real list \<Rightarrow> py_error + npfloat" where
  "smape y_true y_pred =
     (case smape_term y_true y_pred of
        Inl e \<Rightarrow> Inl e
      | Inr terms \<Rightarrow> Inr (np_mul (np_mean terms) (Fin 100)))"

text \<open>
  \<^verbatim>\<open>smape(np.exp(a), np.exp(b))\<close>, as the training cell and the ensemble cell call the
  metric. When no exponential overflows, the metric is taken on the finite values. An
  exponential that overflowed is \<open>inf\<close>: the denominator of its element is \<open>inf\<close> and is
  not 0, the difference is \<open>inf\<close> or \<open>nan\<close>, the term is \<open>nan\<close>, and so is the mean, if
  the shapes of the two arrays fit.
\<close>

fun finite_value :: "npfloat \<Rightarrow> real option" where
  "finite_value (Fin x) = Some x"
| "finite_value PInf = None"
| "finite_value NInf = None"
| "finite_value NaN = None"

definition smape_exp :: "real list \<Rightarrow> real list \<Rightarrow> py_error + npfloat" where
  "smape_exp a b =
     (case (those (map (\<lambda>x. finite_value (np_exp (Fin x))) a),
            those (map (\<lambda>x. finite_value (np_exp (Fin x))) b)) of
        (Some y_true, Some y_pred) \<Rightarrow> smape y_true y_pred
      | _ \<Rightarrow> (case np_binop (\<lambda>t p. ()) a b of Inl e \<Rightarrow> Inl e | Inr shape \<Rightarrow> Inr NaN))"

text \<open>
  The metric as the specification words it: the term of one element, 0 when its
  denominator is 0.
\<close>

definition spec_term :: "real \<Rightarrow> real \<Rightarrow> real" where
  "spec_term t p =
     (if (\<bar>t\<bar> + \<bar>p\<bar>) / 2 = 0 then 0 else \<bar>t - p\<bar> / ((\<bar>t\<bar> + \<bar>p\<bar>) / 2))"

definition spec_smape :: "real list \<Rightarrow> real list \<Rightarrow> real" where
  "spec_smape ys ps = sum_list (map2 spec_term ys ps) / real (length ys) * 100"

subsection \<open>Cross-validated training\<close>

text \<open>
  A pipeline (preprocessing and estimator) belongs to the libraries. Fitting it on the
  training rows of a fold gives a fitted pipeline or raises; a fitted pipeline predicts the
  rows of a validation part, or the rows of the test table, or raises.
\<close>

datatype rows = Val "nat list" | Test

record 'f pipeline =
  fit :: "nat list \<Rightarrow> py_error + 'f"
  predict :: "'f \<Rightarrow> rows \<Rightarrow> py_error + real list"

text \<open>
  The entries \<^verbatim>\<open>oof_preds[model_name]\<close> and \<^verbatim>\<open>test_preds[model_name]\<close> of one model.
  The two dictionaries are keyed by the model names, which are distinct, and the loop body
  of a model reads and writes the entries of that model only.
\<close>

record store =
  oof_preds :: "real list"
  test_preds :: "real list"

text \<open>
  \<^verbatim>\<open>a[idx] = v\<close> for an array of positions: a position outside the array raises; the
  values pair up with the positions, or a single value is broadcast; later writes win.
\<close>

definition setitem :: "real list \<Rightarrow> nat list \<Rightarrow> real list \<Rightarrow> py_error + real list" where
  "setitem a idx v =
     (if \<exists>i \<in> set idx. length a \<le> i then Inl IndexError
      else if length v = length idx then Inr (fold (\<lambda>(i, x) b. b[i := x]) (zip idx v) a)
      else if length v = 1 then Inr (fold (\<lambda>i b. b[i := hd v]) idx a)
      else Inl ValueError)"

text \<open>\<^verbatim>\<open>a += b\<close>: \<open>b\<close> has the length of \<open>a\<close>, or is a single value that is broadcast.\<close>

definition iadd :: "real list \<Rightarrow> real list \<Rightarrow> py_error + real list" where
  "iadd a b =
     (if length b = length a then Inr (map2 (+) a b)
      else if length b = 1 then Inr (map (\<lambda>x. x + hd b) a)
      else Inl ValueError)"

text \<open>
  The body of the loop over the folds, for a table of \<open>n\<close> training rows. The result is the
  store as the body leaves it, and the exception if one was raised: what was written before
  the exception stays written.
\<close>

definition train_fold ::
  "'f pipeline \<Rightarrow> nat \<Rightarrow> nat list \<times> nat list \<Rightarrow> store \<Rightarrow> store \<times> py_error option" where
  "train_fold pl n fold_k st =
     (case fold_k of (train_idx, val_idx) \<Rightarrow>
      if \<exists>i \<in> set (train_idx @ val_idx). n \<le> i then (st, Some IndexError)
      else
        case fit pl train_idx of Inl e \<Rightarrow> (st, Some e) | Inr fitted \<Rightarrow>
        case predict pl fitted (Val val_idx) of Inl e \<Rightarrow> (st, Some e) | Inr p \<Rightarrow>
        case setitem (oof_preds st) val_idx p of Inl e \<Rightarrow> (st, Some e) | Inr oof \<Rightarrow>
        let st1 = st\<lparr>oof_preds := oof\<rparr> in
        case predict pl fitted Test of Inl e \<Rightarrow> (st1, Some e) | Inr q \<Rightarrow>
        case iadd (test_preds st1) (map (\<lambda>x. x / real N_SPLITS) q) of
          Inl e \<Rightarrow> (st1, Some e)
        | Inr t \<Rightarrow> (st1\<lparr>test_preds := t\<rparr>, None))"

fun cv_loop ::
  "'f pipeline \<Rightarrow> nat \<Rightarrow> (nat list \<times> nat list) list \<Rightarrow> store \<Rightarrow> store \<times> py_error option" where
  "cv_loop pl n [] st = (st, None)"
| "cv_loop pl n (f # fs) st =
     (case train_fold pl n f st of
        (st', Some e) \<Rightarrow> (st', Some e)
      | (st', None) \<Rightarrow> cv_loop pl n fs st')"

text \<open>
  The \<^verbatim>\<open>try\<close> block of one model: \<open>split\<close> is what \<^verbatim>\<open>kf.split(X, y_bins)\<close> yields, the
  folds or the exception it raises at the first iteration. After the folds the metric of the
  model is computed on the exponentiated values. The \<^verbatim>\<open>except\<close> clause prints the
  exception and continues; the exception is returned in the result. The feature
  importances, which are only stored for reporting, are left out.
\<close>

definition train_model ::
  "'f pipeline \<Rightarrow> nat \<Rightarrow> real list \<Rightarrow> py_error + (nat list \<times> nat list) list \<Rightarrow> store
     \<Rightarrow> store \<times> py_error option" where
  "train_model pl n y split st =
     (case split of
        Inl e \<Rightarrow> (st, Some e)
      | Inr folds \<Rightarrow>
          (case cv_loop pl n folds st of
             (st', Some e) \<Rightarrow> (st', Some e)
           | (st', None) \<Rightarrow>
               (case smape_exp y (oof_preds st') of
                  Inl e \<Rightarrow> (st', Some e)
                | Inr cv_smape \<Rightarrow> (st', None))))"

text \<open>The loop over the models; every store starts as arrays of zeros.\<close>

definition train_all ::
  "(string \<times> 'f pipeline) list \<Rightarrow> nat \<Rightarrow> real list \<Rightarrow> nat
     \<Rightarrow> py_error + (nat list \<times> nat list) list \<Rightarrow> (string \<times> store \<times> py_error option) list" where
  "train_all pipelines n y n_test split =
     map (\<lambda>(model_name, pl).
            (model_name,
             train_model pl n y split
               \<lparr>oof_preds = replicate (length y) 0, test_preds = replicate n_test 0\<rparr>))
         pipelines"

text \<open>
  Modelled from the spec: the fold assignment of the splitter (\<^verbatim>\<open>StratifiedKFold\<close> of
  scikit-learn, whose code is not part of the sources) for \<open>n\<close> rows: \<^verbatim>\<open>N_SPLITS\<close>
  folds, every row in the validation part of exactly one fold, the training part of a fold
  being the other rows.
\<close>

definition kfold_partition :: "nat \<Rightarrow> (nat list \<times> nat list) list \<Rightarrow> bool" where
  "kfold_partition n folds \<longleftrightarrow>
     length folds = N_SPLITS \<and>
     distinct (concat (map snd folds)) \<and>
     set (concat (map snd folds)) = {..<n} \<and>
     (\<forall>(train_idx, val_idx) \<in> set folds. set train_idx = {..<n} - set val_idx)"

text \<open>The value that \<^verbatim>\<open>a[idx] = p\<close> writes at the \<open>j\<close>-th position of \<open>idx\<close>.\<close>

definition written :: "real list \<Rightarrow> nat list \<Rightarrow> nat \<Rightarrow> real" where
  "written p idx j = (if length p = length idx then p ! j else hd p)"

subsection \<open>The ensemble\<close>

text \<open>A value that is a scalar or a one-dimensional array.\<close>

datatype nd = Scalar npfloat | Array "npfloat list"

fun nd_map :: "(npfloat \<Rightarrow> npfloat) \<Rightarrow> nd \<Rightarrow> nd" where
  "nd_map f (Scalar a) = Scalar (f a)"
| "nd_map f (Array as) = Array (map f as)"

text \<open>The values of a scalar or an array.\<close>

fun nd_values :: "nd \<Rightarrow> npfloat list" where
  "nd_values (Scalar a) = [a]"
| "nd_values (Array as) = as"

fun nd_add :: "nd \<Rightarrow> nd \<Rightarrow> py_error + nd" where
  "nd_add (Scalar a) (Scalar b) = Inr (Scalar (np_add a b))"
| "nd_add (Scalar a) (Array bs) = Inr (Array (map (np_add a) bs))"
| "nd_add (Array as) (Scalar b) = Inr (Array (map (\<lambda>a. np_add a b) as))"
| "nd_add (Array as) (Array bs) =
     (case np_binop np_add as bs of Inl e \<Rightarrow> Inl e | Inr cs \<Rightarrow> Inr (Array cs))"

text \<open>The builtin \<^verbatim>\<open>sum\<close>, which starts from the integer 0.\<close>

definition py_sum :: "npfloat list \<Rightarrow> npfloat" where
  "py_sum vs = foldl np_add (Fin 0) vs"

fun nd_sum :: "nd \<Rightarrow> nd list \<Rightarrow> py_error + nd" where
  "nd_sum acc [] = Inr acc"
| "nd_sum acc (x # xs) = and_then (nd_add acc x) (\<lambda>acc'. nd_sum acc' xs)"

fun map_raising :: "('a \<Rightarrow> py_error + 'b) \<Rightarrow> 'a list \<Rightarrow> py_error + 'b list" where
  "map_raising f [] = Inr []"
| "map_raising f (x # xs) =
     and_then (f x) (\<lambda>v.
     and_then (map_raising f xs) (\<lambda>vs.
     Inr (v # vs)))"

definition dict_get :: "(string \<times> 'a) list \<Rightarrow> string \<Rightarrow> py_error + 'a" where
  "dict_get d k = (case map_of d k of None \<Rightarrow> Inl (KeyError [k]) | Some v \<Rightarrow> Inr v)"

definition inverse_errors :: "(string \<times> npfloat) list \<Rightarrow> (string \<times> npfloat) list" where
  "inverse_errors errs = map (\<lambda>(k, v). (k, np_div (Fin 1) v)) errs"

definition normalize_weights :: "(string \<times> npfloat) list \<Rightarrow> (string \<times> npfloat) list" where
  "normalize_weights invs = map (\<lambda>(k, v). (k, np_div v (py_sum (map snd invs)))) invs"

record ensemble =
  errors :: "(string \<times> npfloat) list"
  inv_errors :: "(string \<times> npfloat) list"
  norm_weights :: "(string \<times> npfloat) list"
  ensemble_preds :: nd

text \<open>
  The ensemble cell, on the stores that the training cell leaves. The dictionaries are
  comprehensions over \<^verbatim>\<open>models\<close>, \<^verbatim>\<open>errors\<close> and \<^verbatim>\<open>test_preds\<close>, which have the names of
  all models as keys. The metric of the blended out-of-fold predictions is only printed and
  is left out.
\<close>

definition ensemble_cell ::
  "real list \<Rightarrow> (string \<times> store \<times> py_error option) list \<Rightarrow> py_error + ensemble" where
  "ensemble_cell y results =
     and_then
       (map_raising
          (\<lambda>(name, st, err).
             and_then (smape_exp y (oof_preds st)) (\<lambda>v. Inr (name, v)))
          results)
       (\<lambda>errs.
     let invs = inverse_errors errs;
         w = normalize_weights invs
     in
     and_then
       (map_raising
          (\<lambda>(k, st, err).
             and_then (dict_get w k)
               (\<lambda>wk. Inr (Array (map (\<lambda>x. np_mul (Fin x) wk) (test_preds st)))))
          results)
       (\<lambda>terms.
     and_then (nd_sum (Scalar (Fin 0)) terms)
       (\<lambda>ensemble_preds_log.
     Inr \<lparr>errors = errs, inv_errors = invs, norm_weights = w,
          ensemble_preds = nd_map np_exp ensemble_preds_log\<rparr>)))"

subsection \<open>The submission\<close>

text \<open>\<^verbatim>\<open>np.clip(x, a_min=0, a_max=None)\<close>, the maximum of \<open>x\<close> and 0; \<open>nan\<close> stays \<open>nan\<close>.\<close>

fun clip_min0 :: "npfloat \<Rightarrow> npfloat" where
  "clip_min0 (Fin x) = Fin (max x 0)"
| "clip_min0 PInf = PInf"
| "clip_min0 NInf = Fin 0"
| "clip_min0 NaN = NaN"

text \<open>
  The last cell. The result is the list of the rows \<open>(id, price)\<close> written to
  \<^verbatim>\<open>submission.csv\<close>; with an exception nothing is written. A scalar price is repeated
  for every identifier; an array must have the length of the identifier column.
\<close>

definition submission_cell :: "frame \<Rightarrow> nd \<Rightarrow> py_error + (cell option \<times> npfloat) list" where
  "submission_cell test_df preds =
     (let clipped = nd_map clip_min0 preds in
      and_then (getitem test_df ''id'')
        (\<lambda>sel. case sel of
           SubFrame ss \<Rightarrow> Inl ValueError
         | Column ids \<Rightarrow>
             (case clipped of
                Scalar v \<Rightarrow> Inr (map (\<lambda>i. (i, v)) (cells ids))
              | Array vs \<Rightarrow>
                  if length vs = length (cells ids) then Inr (zip (cells ids) vs)
                  else Inl ValueError)))"

subsection \<open>The notebook\<close>

text \<open>
  The parts of a run that the libraries decide: the binning of the target, the folds, and the
  registry of models with their pipelines, which are built from the detected columns.
\<close>

record 'f libs =
  discretize :: "real list \<Rightarrow> py_error + nat list"
  kf_split :: "nat \<Rightarrow> nat list \<Rightarrow> py_error + (nat list \<times> nat list) list"
  pipelines :: "column_sets \<Rightarrow> (string \<times> 'f pipeline) list"

text \<open>
  The target as an array of numbers, as the binning step validates it (\<^verbatim>\<open>check_array\<close>
  of scikit-learn, which converts an object column of numbers): complex data, a missing
  value or a text raises \<^verbatim>\<open>ValueError\<close>.
\<close>

definition float_values :: "series \<Rightarrow> py_error + real list" where
  "float_values s =
     (if dtype s = dt_complex then Inl ValueError
      else map_raising (\<lambda>c. case c of Some (Num r) \<Rightarrow> Inr r | _ \<Rightarrow> Inl ValueError) (cells s))"

text \<open>
  \<^verbatim>\<open>np.exp(y)\<close> on the target column. numpy has the exponential for the boolean, integer,
  floating-point and complex storage types. For a column of another storage type, such as
  an object column of numbers, the call raises \<^verbatim>\<open>TypeError\<close>.
\<close>

definition exp_defined :: "np_dtype \<Rightarrow> bool" where
  "exp_defined d \<longleftrightarrow> kind d \<in> {''b'', ''i'', ''u'', ''f'', ''c''}"

text \<open>
  The cells of the notebook in order. A target label that several columns carry is not
  followed further: the run stops with an exception at the binning step. After the binning
  the cell prints \<^verbatim>\<open>y_bins.max() + 1\<close>, which raises \<^verbatim>\<open>ValueError\<close> for an empty
  array. For a target
  without exponential, \<^verbatim>\<open>np.exp(y)\<close> raises in the \<^verbatim>\<open>try\<close> block of every model, after
  its folds, where the exception is caught, and again in the first statement of the ensemble
  cell, outside any handler, where it ends the run; the training of such a run is not
  followed.
\<close>

definition notebook :: "'f libs \<Rightarrow> frame \<Rightarrow> frame \<Rightarrow> py_error + (cell option \<times> npfloat) list" where
  "notebook lib train_df test_df =
     and_then (df_drop train_df DROP_COLS Ignore) (\<lambda>X.
     and_then (getitem train_df TARGET) (\<lambda>y_sel.
     and_then (df_drop test_df DROP_COLS Ignore) (\<lambda>X_test.
     and_then (detect_columns X) (\<lambda>cols.
     case y_sel of
       SubFrame ss \<Rightarrow> Inl ValueError
     | Column y_col \<Rightarrow>
         and_then (float_values y_col) (\<lambda>y.
         and_then (discretize lib y) (\<lambda>y_bins.
         if y_bins = [] then Inl ValueError else
         if \<not> exp_defined (dtype y_col) then Inl TypeError else
         let results = train_all (pipelines lib cols) (nrows X) y (nrows X_test)
                         (kf_split lib (nrows X) y_bins)
         in
         and_then (ensemble_cell y results) (\<lambda>ens.
         submission_cell test_df (ensemble_preds ens))))))))"

subsection \<open>Auxiliary notions and example inputs\<close>

text \<open>The writes of \<^verbatim>\<open>a[idx] = v\<close>, in order, as pairs of a position and a value.\<close>

definition assignments :: "real list \<Rightarrow> nat list \<Rightarrow> (nat \<times> real) list" where
  "assignments v idx =
     (if length v = length idx then zip idx v else map (\<lambda>i. (i, hd v)) idx)"


text \<open>
  A small run for the examples: ten training rows with the target \<open>ln 3\<close>, every row the
  validation part of one of ten folds, and two test rows. The model \<open>steady_model\<close>
  predicts \<open>ln 2\<close> for every row, \<open>exact_model\<close> predicts the target, \<open>low_model\<close>
  predicts \<open>ln 2\<close> for the training rows and -800 for the test rows, \<open>failing_model\<close>
  raises when it is fitted in the second fold, \<open>broken_model\<close> raises whenever it is fitted.
\<close>

definition example_folds :: "(nat list \<times> nat list) list" where
  "example_folds = map (\<lambda>k. (filter (\<lambda>i. i \<noteq> k) [0..<10], [k])) [0..<10]"

definition example_y :: "real list" where
  "example_y = replicate 10 (ln 3)"

definition steady_model :: "unit pipeline" where
  "steady_model =
     \<lparr>fit = (\<lambda>train_idx. Inr ()),
      predict = (\<lambda>fitted r. case r of Val idx \<Rightarrow> Inr (map (\<lambda>i. ln 2) idx)
                                       | Test \<Rightarrow> Inr [ln 2, ln 2])\<rparr>"

definition exact_model :: "unit pipeline" where
  "exact_model =
     \<lparr>fit = (\<lambda>train_idx. Inr ()),
      predict = (\<lambda>fitted r. case r of Val idx \<Rightarrow> Inr (map (\<lambda>i. ln 3) idx)
                                       | Test \<Rightarrow> Inr [ln 3, ln 3])\<rparr>"

definition low_model :: "unit pipeline" where
  "low_model =
     \<lparr>fit = (\<lambda>train_idx. Inr ()),
      predict = (\<lambda>fitted r. case r of Val idx \<Rightarrow> Inr (map (\<lambda>i. ln 2) idx)
                                       | Test \<Rightarrow> Inr [- 800, - 800])\<rparr>"

definition failing_model :: "unit pipeline" where
  "failing_model =
     steady_model\<lparr>fit := (\<lambda>train_idx. if 1 \<in> set train_idx then Inr ()
                                       else Inl (LibraryError ''out of memory''))\<rparr>"

definition broken_model :: "unit pipeline" where
  "broken_model = steady_model\<lparr>fit := (\<lambda>train_idx. Inl (LibraryError ''out of memory''))\<rparr>"

definition example_train :: frame where
  "example_train =
     \<lparr>nrows = 10, columns =
        [(''id'', \<lparr>dtype = dt_int, cells = map (\<lambda>i. Some (Num (real i))) [0..<10]\<rparr>),
         (''year'', \<lparr>dtype = dt_int, cells = replicate 10 (Some (Num 2020))\<rparr>),
         (''log_price'', \<lparr>dtype = dt_float, cells = replicate 10 (Some (Num (ln 3)))\<rparr>)]\<rparr>"

definition example_test :: frame where
  "example_test =
     \<lparr>nrows = 2, columns =
        [(''id'', \<lparr>dtype = dt_int, cells = [Some (Num 100), Some (Num 101)]\<rparr>),
         (''year'', \<lparr>dtype = dt_int, cells = [Some (Num 2021), Some (Num 2022)]\<rparr>)]\<rparr>"

definition example_libs :: "(string \<times> unit pipeline) list \<Rightarrow> unit libs" where
  "example_libs models =
     \<lparr>discretize = (\<lambda>y. Inr (map (\<lambda>v. 0) y)),
      kf_split = (\<lambda>n y_bins. Inr example_folds),
      pipelines = (\<lambda>cols. models)\<rparr>"

section \<open>Properties\<close>

subsection \<open>The metric\<close>

lemma putmask_div:
  "length diff = length den \<Longrightarrow>
   putmask (map (\<lambda>_. 0) diff) (map (\<lambda>d. d \<noteq> 0) den)
     (map2 (/) (compress (map (\<lambda>d. d \<noteq> 0) den) diff) (compress (map (\<lambda>d. d \<noteq> 0) den) den))
   = map2 (\<lambda>d n. if n \<noteq> 0 then d / n else (0::real)) diff den"
  by (induction rule: list_induct2) (auto simp: compress_def)

lemma map2_spec_term:
  "length ys = length ps \<Longrightarrow>
   map2 (\<lambda>d n. if n \<noteq> 0 then d / n else (0::real))
     (map2 (\<lambda>t p. \<bar>t - p\<bar>) ys ps) (map (\<lambda>d. d / 2) (map2 (\<lambda>t p. \<bar>t\<bar> + \<bar>p\<bar>) ys ps))
   = map2 spec_term ys ps"
  by (induction rule: list_induct2) (auto simp: spec_term_def)

lemma smape_term_eq:
  assumes "length ys = length ps"
  shows "smape_term ys ps = Inr (map2 spec_term ys ps)"
proof -
  define den where "den = map (\<lambda>d. d / 2) (map2 (\<lambda>t p. \<bar>t\<bar> + \<bar>p\<bar>) ys ps)"
  define diff where "diff = map2 (\<lambda>t p. \<bar>t - p\<bar>) ys ps"
  have len: "length diff = length den"
    by (simp add: den_def diff_def assms)
  have "smape_term ys ps =
        Inr (putmask (map (\<lambda>_. 0) diff) (map (\<lambda>d. d \<noteq> 0) den)
              (map2 (/) (compress (map (\<lambda>d. d \<noteq> 0) den) diff)
                        (compress (map (\<lambda>d. d \<noteq> 0) den) den)))"
    unfolding smape_term_def np_binop_def den_def diff_def Let_def using assms by simp
  also have "\<dots> = Inr (map2 (\<lambda>d n. if n \<noteq> 0 then d / n else 0) diff den)"
    by (simp only: putmask_div [OF len])
  also have "\<dots> = Inr (map2 spec_term ys ps)"
    unfolding den_def diff_def by (simp only: map2_spec_term [OF assms])
  finally show ?thesis .
qed

lemma smape_eq:
  "length ys = length ps \<Longrightarrow>
   smape ys ps = Inr (if ys = [] then NaN else Fin (spec_smape ys ps))"
  by (auto simp: smape_def smape_term_eq np_mean_def spec_smape_def)

text \<open>
  C4. For two sequences of the same length, \<open>smape\<close> is the mean of the terms
  \<open>|true - pred| / ((|true| + |pred|) / 2)\<close>, a term being 0 when its denominator is 0,
  times 100. The mean of no terms is \<open>nan\<close>.
\<close>

theorem smape_formula:
  "length ys = length ps \<Longrightarrow>
   smape ys ps =
     Inr (if ys = [] then NaN
          else Fin (sum_list (map2 spec_term ys ps) / real (length ys) * 100))"
  by (simp add: smape_eq spec_smape_def)

theorem smape_formula_witness:
  "length [1, 2 :: real] = length [1, 3 :: real] \<and> smape [1, 2] [1, 3] = Inr (Fin 20)"
  using smape_formula [of "[1, 2]" "[1, 3]"] by (simp add: spec_term_def)

lemma spec_term_same: "spec_term t t = 0"
  by (simp add: spec_term_def)

lemma spec_term_commute: "spec_term t p = spec_term p t"
  by (auto simp: spec_term_def add.commute abs_minus_commute)

lemma map2_spec_term_same: "map2 spec_term a a = map (\<lambda>_. 0) a"
  by (induction a) (simp_all add: spec_term_same)

lemma sum_list_zeros: "sum_list (map (\<lambda>_. 0::real) a) = 0"
  by (induction a) simp_all

lemma map2_spec_term_commute:
  "length a = length b \<Longrightarrow> map2 spec_term a b = map2 spec_term b a"
  by (induction rule: list_induct2) (simp_all add: spec_term_commute)

lemma smape_same: "a \<noteq> [] \<Longrightarrow> smape a a = Inr (Fin 0)"
  by (simp add: smape_eq spec_smape_def map2_spec_term_same sum_list_zeros)

lemma smape_commute: "length a = length b \<Longrightarrow> smape a b = smape b a"
  by (simp add: smape_def smape_term_eq map2_spec_term_commute)

text \<open>
  C5, the counterexample: for the empty sequence the metric is \<open>nan\<close>, not 0.
\<close>

theorem smape_empty_is_nan: "smape [] [] = Inr NaN \<and> smape [] [] \<noteq> Inr (Fin 0)"
  by (simp add: smape_eq)

text \<open>
  C5, as amended: for every sequence \<open>a\<close> that is not empty, \<open>smape a a = 0\<close>; for
  sequences of the same length the metric is symmetric; and an element where both values
  are 0 has the term 0 in \<^verbatim>\<open>smape_term\<close>.
\<close>

theorem smape_zero_symmetric:
  "(a \<noteq> [] \<longrightarrow> smape a a = Inr (Fin 0)) \<and>
   (length a = length b \<longrightarrow> smape a b = smape b a) \<and>
   (length a = length b \<longrightarrow>
      (\<exists>ts. smape_term a b = Inr ts \<and> length ts = length a \<and>
            (\<forall>i < length a. a ! i = 0 \<and> b ! i = 0 \<longrightarrow> ts ! i = 0)))"
proof (intro conjI impI)
  assume "a \<noteq> []"
  then show "smape a a = Inr (Fin 0)" by (rule smape_same)
next
  assume "length a = length b"
  then show "smape a b = smape b a" by (rule smape_commute)
next
  assume len: "length a = length b"
  have "\<forall>i < length a. a ! i = 0 \<and> b ! i = 0 \<longrightarrow> map2 spec_term a b ! i = 0"
    using len by (simp add: spec_term_def)
  then show "\<exists>ts. smape_term a b = Inr ts \<and> length ts = length a \<and>
            (\<forall>i < length a. a ! i = 0 \<and> b ! i = 0 \<longrightarrow> ts ! i = 0)"
    using len by (simp add: smape_term_eq)
qed

theorem smape_zero_symmetric_witness:
  "[0, 2 :: real] \<noteq> [] \<and> smape [0, 2] [0, 2] = Inr (Fin 0) \<and>
   length [0, 2 :: real] = length [0, 3 :: real] \<and> smape [0, 2] [0, 3] = smape [0, 3] [0, 2] \<and>
   (\<exists>ts. smape_term [0, 2] [0, 3] = Inr ts \<and> ts ! 0 = 0)"
  using smape_zero_symmetric [of "[0, 2]" "[0, 3]"] by auto

subsection \<open>Column detection\<close>

lemma and_then_Inr [simp]: "and_then (Inr x) f = f x"
  by (simp add: and_then_def)

lemma and_then_Inl [simp]: "and_then (Inl e) f = Inl e"
  by (simp add: and_then_def)

lemma filter_raising_pure:
  "(\<And>x. x \<in> set xs \<Longrightarrow> p x = Inr (q x)) \<Longrightarrow> filter_raising p xs = Inr (filter q xs)"
  by (induction xs) (simp_all add: and_then_def)

lemma filter_label_distinct:
  "distinct (map fst xs) \<Longrightarrow> (c, s) \<in> set xs \<Longrightarrow> filter (\<lambda>(c', s'). c' = c) xs = [(c, s)]"
proof (induction xs)
  case Nil
  then show ?case by simp
next
  case (Cons x xs)
  show ?case
  proof (cases "x = (c, s)")
    case True
    with Cons.prems have "c \<notin> fst ` set xs" by auto
    then have "filter (\<lambda>(c', s'). c' = c) xs = []"
      by (force simp: filter_empty_conv)
    with True show ?thesis by simp
  next
    case False
    with Cons.prems have in_xs: "(c, s) \<in> set xs" and "distinct (map fst xs)" by auto
    with Cons.prems have "fst x \<noteq> c" by (cases x) (auto simp: image_iff)
    with Cons.IH in_xs \<open>distinct (map fst xs)\<close> show ?thesis by (cases x) auto
  qed
qed

lemma getitem_distinct:
  "distinct (map fst (columns X)) \<Longrightarrow> (c, s) \<in> set (columns X) \<Longrightarrow>
   getitem X c = Inr (Column s)"
  by (simp add: getitem_def filter_label_distinct)

lemma col_dtype_distinct:
  assumes "distinct (map fst (columns X))" "c \<in> set (map fst (columns X))"
  shows "col_dtype X c = Inr (dtype (the (map_of (columns X) c)))"
proof -
  from assms(2) obtain s where s: "(c, s) \<in> set (columns X)" by auto
  with assms(1) have "map_of (columns X) c = Some s" by simp
  with s assms(1) show ?thesis by (simp add: col_dtype_def getitem_distinct and_then_def)
qed

lemma col_nunique_distinct:
  assumes "distinct (map fst (columns X))" "c \<in> set (map fst (columns X))"
  shows "col_nunique X c = Inr (nunique (the (map_of (columns X) c)))"
proof -
  from assms(2) obtain s where s: "(c, s) \<in> set (columns X)" by auto
  with assms(1) have "map_of (columns X) c = Some s" by simp
  with s assms(1) show ?thesis by (simp add: col_nunique_def getitem_distinct and_then_def)
qed

lemma in_if_kind: "in_if (kind d) \<longleftrightarrow> d = dt_int \<or> d = dt_float"
  by (cases d) (simp_all add: in_if_def)

lemma detect_columns_distinct:
  assumes d: "distinct (map fst (columns X))"
  defines "names \<equiv> map fst (columns X)"
  defines "dt \<equiv> \<lambda>c. dtype (the (map_of (columns X) c))"
  defines "nu \<equiv> \<lambda>c. nunique (the (map_of (columns X) c))"
  defines "cat \<equiv> \<lambda>c. dt c \<noteq> dt_bool \<and> dt c \<noteq> dt_int \<and> dt c \<noteq> dt_float"
  shows "detect_columns X =
    Inr \<lparr>num_cols = filter (\<lambda>c. dt c = dt_int \<or> dt c = dt_float) names,
         bool_cols = filter (\<lambda>c. dt c = dt_bool) names,
         cat_low = filter (\<lambda>c. cat c \<and> nu c \<le> 20) names,
         cat_mid = filter (\<lambda>c. cat c \<and> 20 < nu c \<and> nu c \<le> 200) names,
         cat_high = filter (\<lambda>c. cat c \<and> 200 < nu c) names\<rparr>"
proof -
  let ?bools = "filter (\<lambda>c. dt c = dt_bool) names"
  let ?nums = "filter (\<lambda>c. dt c = dt_int \<or> dt c = dt_float) names"
  let ?cats = "filter cat names"
  have b: "filter_raising (\<lambda>c. and_then (col_dtype X c) (\<lambda>d. Inr (d = dt_bool))) names = Inr ?bools"
    by (rule filter_raising_pure) (simp add: col_dtype_distinct [OF d] names_def dt_def and_then_def)
  have "filter_raising (\<lambda>c. and_then (col_dtype X c)
           (\<lambda>d. Inr (in_if (kind d) \<and> c \<notin> set ?bools))) names
        = Inr (filter (\<lambda>c. in_if (kind (dt c)) \<and> c \<notin> set ?bools) names)"
    by (rule filter_raising_pure) (simp add: col_dtype_distinct [OF d] names_def dt_def and_then_def)
  also have "filter (\<lambda>c. in_if (kind (dt c)) \<and> c \<notin> set ?bools) names = ?nums"
    by (rule filter_cong) (auto simp: in_if_kind)
  finally have n: "filter_raising (\<lambda>c. and_then (col_dtype X c)
           (\<lambda>d. Inr (in_if (kind d) \<and> c \<notin> set ?bools))) names = Inr ?nums" .
  have c: "filter (\<lambda>c. c \<notin> set (?nums @ ?bools)) names = ?cats"
    by (rule filter_cong) (auto simp: cat_def)
  have sub: "\<And>x. x \<in> set ?cats \<Longrightarrow> x \<in> set (map fst (columns X))"
    by (simp add: names_def)
  have l: "filter_raising (\<lambda>c. and_then (col_nunique X c) (\<lambda>u. Inr (u \<le> 20))) ?cats
           = Inr (filter (\<lambda>c. nu c \<le> 20) ?cats)"
    by (rule filter_raising_pure) (simp add: col_nunique_distinct [OF d sub] nu_def and_then_def)
  have m: "filter_raising (\<lambda>c. and_then (col_nunique X c) (\<lambda>u. Inr (20 < u \<and> u \<le> 200))) ?cats
           = Inr (filter (\<lambda>c. 20 < nu c \<and> nu c \<le> 200) ?cats)"
    by (rule filter_raising_pure) (simp add: col_nunique_distinct [OF d sub] nu_def and_then_def)
  have h: "filter_raising (\<lambda>c. and_then (col_nunique X c) (\<lambda>u. Inr (u > 200))) ?cats
           = Inr (filter (\<lambda>c. 200 < nu c) ?cats)"
    by (rule filter_raising_pure) (simp add: col_nunique_distinct [OF d sub] nu_def and_then_def)
  have fl: "\<And>q. filter q ?cats = filter (\<lambda>c. cat c \<and> q c) names"
    by (simp add: conj_commute)
  show ?thesis
    unfolding detect_columns_def Let_def names_def [symmetric]
    by (simp only: b n c l m h and_then_Inr fl)
qed

text \<open>
  C3, the counterexample: a column of unsigned integers has the kind \<^verbatim>\<open>'u'\<close>, which
  is not in \<^verbatim>\<open>'if'\<close>; it is routed to the categorical columns, not to the numeric ones.
\<close>

theorem uint_column_is_categorical:
  "detect_columns \<lparr>nrows = 2, columns =
      [(''flag'', \<lparr>dtype = dt_uint, cells = [Some (Num 0), Some (Num 1)]\<rparr>)]\<rparr>
   = Inr \<lparr>num_cols = [], bool_cols = [], cat_low = [''flag''], cat_mid = [], cat_high = []\<rparr>"
  by (simp add: detect_columns_def col_dtype_def col_nunique_def getitem_def nunique_def
      in_if_def)

text \<open>
  C3, as amended: for every table whose column labels are distinct, \<^verbatim>\<open>detect_columns\<close>
  returns five lists that are pairwise disjoint and whose union is the set of column labels.
  A column of storage type bool is boolean; otherwise one of kind \<^verbatim>\<open>'i'\<close> (signed integer)
  or \<^verbatim>\<open>'f'\<close> (float) is numeric; every other column, unsigned integers included, is
  categorical and is routed by its number of distinct values: at most 20 to low, from 21 to
  200 to medium, above 200 to high.
\<close>

theorem detect_columns_partition:
  assumes "distinct (map fst (columns X))"
  shows "\<exists>r. detect_columns X = Inr r \<and>
     set (num_cols r) \<union> set (bool_cols r) \<union> set (cat_low r) \<union> set (cat_mid r)
       \<union> set (cat_high r) = fst ` set (columns X) \<and>
     set (num_cols r) \<inter> set (bool_cols r) = {} \<and>
     set (num_cols r) \<inter> set (cat_low r) = {} \<and>
     set (num_cols r) \<inter> set (cat_mid r) = {} \<and>
     set (num_cols r) \<inter> set (cat_high r) = {} \<and>
     set (bool_cols r) \<inter> set (cat_low r) = {} \<and>
     set (bool_cols r) \<inter> set (cat_mid r) = {} \<and>
     set (bool_cols r) \<inter> set (cat_high r) = {} \<and>
     set (cat_low r) \<inter> set (cat_mid r) = {} \<and>
     set (cat_low r) \<inter> set (cat_high r) = {} \<and>
     set (cat_mid r) \<inter> set (cat_high r) = {} \<and>
     (\<forall>(c, s) \<in> set (columns X).
        (c \<in> set (bool_cols r) \<longleftrightarrow> dtype s = dt_bool) \<and>
        (c \<in> set (num_cols r) \<longleftrightarrow> dtype s = dt_int \<or> dtype s = dt_float) \<and>
        (c \<in> set (cat_low r) \<longleftrightarrow>
           dtype s \<notin> {dt_bool, dt_int, dt_float} \<and> nunique s \<le> 20) \<and>
        (c \<in> set (cat_mid r) \<longleftrightarrow>
           dtype s \<notin> {dt_bool, dt_int, dt_float} \<and> 20 < nunique s \<and> nunique s \<le> 200) \<and>
        (c \<in> set (cat_high r) \<longleftrightarrow>
           dtype s \<notin> {dt_bool, dt_int, dt_float} \<and> 200 < nunique s))"
proof -
  define names where "names = map fst (columns X)"
  define dt where "dt = (\<lambda>c. dtype (the (map_of (columns X) c)))"
  define nu where "nu = (\<lambda>c. nunique (the (map_of (columns X) c)))"
  define cat where "cat = (\<lambda>c. dt c \<noteq> dt_bool \<and> dt c \<noteq> dt_int \<and> dt c \<noteq> dt_float)"
  define r where "r =
    \<lparr>num_cols = filter (\<lambda>c. dt c = dt_int \<or> dt c = dt_float) names,
     bool_cols = filter (\<lambda>c. dt c = dt_bool) names,
     cat_low = filter (\<lambda>c. cat c \<and> nu c \<le> 20) names,
     cat_mid = filter (\<lambda>c. cat c \<and> 20 < nu c \<and> nu c \<le> 200) names,
     cat_high = filter (\<lambda>c. cat c \<and> 200 < nu c) names\<rparr>"
  have run: "detect_columns X = Inr r"
    unfolding r_def cat_def nu_def dt_def names_def by (rule detect_columns_distinct [OF assms])
  have names: "fst ` set (columns X) = set names"
    by (simp add: names_def)
  have cover: "set (num_cols r) \<union> set (bool_cols r) \<union> set (cat_low r) \<union> set (cat_mid r)
       \<union> set (cat_high r) = set names"
    unfolding r_def cat_def by (auto simp: not_le)
  have disj:
    "set (num_cols r) \<inter> set (bool_cols r) = {}"
    "set (num_cols r) \<inter> set (cat_low r) = {}"
    "set (num_cols r) \<inter> set (cat_mid r) = {}"
    "set (num_cols r) \<inter> set (cat_high r) = {}"
    "set (bool_cols r) \<inter> set (cat_low r) = {}"
    "set (bool_cols r) \<inter> set (cat_mid r) = {}"
    "set (bool_cols r) \<inter> set (cat_high r) = {}"
    "set (cat_low r) \<inter> set (cat_mid r) = {}"
    "set (cat_low r) \<inter> set (cat_high r) = {}"
    "set (cat_mid r) \<inter> set (cat_high r) = {}"
    unfolding r_def cat_def by auto
  have route: "\<forall>(c, s) \<in> set (columns X).
        (c \<in> set (bool_cols r) \<longleftrightarrow> dtype s = dt_bool) \<and>
        (c \<in> set (num_cols r) \<longleftrightarrow> dtype s = dt_int \<or> dtype s = dt_float) \<and>
        (c \<in> set (cat_low r) \<longleftrightarrow>
           dtype s \<notin> {dt_bool, dt_int, dt_float} \<and> nunique s \<le> 20) \<and>
        (c \<in> set (cat_mid r) \<longleftrightarrow>
           dtype s \<notin> {dt_bool, dt_int, dt_float} \<and> 20 < nunique s \<and> nunique s \<le> 200) \<and>
        (c \<in> set (cat_high r) \<longleftrightarrow>
           dtype s \<notin> {dt_bool, dt_int, dt_float} \<and> 200 < nunique s)"
  proof (clarify)
    fix c s
    assume cs: "(c, s) \<in> set (columns X)"
    with assms have "the (map_of (columns X) c) = s" by simp
    then have dt: "dt c = dtype s" and nu: "nu c = nunique s"
      by (simp_all add: dt_def nu_def)
    from cs have "c \<in> set names" by (force simp: names_def)
    then show "(c \<in> set (bool_cols r) \<longleftrightarrow> dtype s = dt_bool) \<and>
        (c \<in> set (num_cols r) \<longleftrightarrow> dtype s = dt_int \<or> dtype s = dt_float) \<and>
        (c \<in> set (cat_low r) \<longleftrightarrow>
           dtype s \<notin> {dt_bool, dt_int, dt_float} \<and> nunique s \<le> 20) \<and>
        (c \<in> set (cat_mid r) \<longleftrightarrow>
           dtype s \<notin> {dt_bool, dt_int, dt_float} \<and> 20 < nunique s \<and> nunique s \<le> 200) \<and>
        (c \<in> set (cat_high r) \<longleftrightarrow>
           dtype s \<notin> {dt_bool, dt_int, dt_float} \<and> 200 < nunique s)"
      by (simp add: r_def cat_def dt nu)
  qed
  from run cover disj route show ?thesis
    unfolding names by blast
qed

theorem detect_columns_partition_witness:
  "distinct (map fst (columns \<lparr>nrows = 1, columns =
      [(''year'', \<lparr>dtype = dt_int, cells = [Some (Num 2020)]\<rparr>),
       (''vip'', \<lparr>dtype = dt_bool, cells = [Some (Num 1)]\<rparr>),
       (''region'', \<lparr>dtype = dt_object, cells = [Some (Text ''77'')]\<rparr>)]\<rparr>)) \<and>
   (\<exists>r. detect_columns \<lparr>nrows = 1, columns =
      [(''year'', \<lparr>dtype = dt_int, cells = [Some (Num 2020)]\<rparr>),
       (''vip'', \<lparr>dtype = dt_bool, cells = [Some (Num 1)]\<rparr>),
       (''region'', \<lparr>dtype = dt_object, cells = [Some (Text ''77'')]\<rparr>)]\<rparr> = Inr r \<and>
      set (num_cols r) \<union> set (bool_cols r) \<union> set (cat_low r) \<union> set (cat_mid r)
        \<union> set (cat_high r) = {''year'', ''vip'', ''region''} \<and>
      set (num_cols r) \<inter> set (bool_cols r) = {})"
proof -
  let ?X = "\<lparr>nrows = 1, columns =
      [(''year'', \<lparr>dtype = dt_int, cells = [Some (Num 2020)]\<rparr>),
       (''vip'', \<lparr>dtype = dt_bool, cells = [Some (Num 1)]\<rparr>),
       (''region'', \<lparr>dtype = dt_object, cells = [Some (Text ''77'')]\<rparr>)]\<rparr>"
  have d: "distinct (map fst (columns ?X))" by simp
  from detect_columns_partition [OF d] obtain r where r:
    "detect_columns ?X = Inr r \<and>
     set (num_cols r) \<union> set (bool_cols r) \<union> set (cat_low r) \<union> set (cat_mid r)
       \<union> set (cat_high r) = fst ` set (columns ?X) \<and>
     set (num_cols r) \<inter> set (bool_cols r) = {} \<and>
     set (num_cols r) \<inter> set (cat_low r) = {} \<and>
     set (num_cols r) \<inter> set (cat_mid r) = {} \<and>
     set (num_cols r) \<inter> set (cat_high r) = {} \<and>
     set (bool_cols r) \<inter> set (cat_low r) = {} \<and>
     set (bool_cols r) \<inter> set (cat_mid r) = {} \<and>
     set (bool_cols r) \<inter> set (cat_high r) = {} \<and>
     set (cat_low r) \<inter> set (cat_mid r) = {} \<and>
     set (cat_low r) \<inter> set (cat_high r) = {} \<and>
     set (cat_mid r) \<inter> set (cat_high r) = {} \<and>
     (\<forall>(c, s) \<in> set (columns ?X).
        (c \<in> set (bool_cols r) \<longleftrightarrow> dtype s = dt_bool) \<and>
        (c \<in> set (num_cols r) \<longleftrightarrow> dtype s = dt_int \<or> dtype s = dt_float) \<and>
        (c \<in> set (cat_low r) \<longleftrightarrow>
           dtype s \<notin> {dt_bool, dt_int, dt_float} \<and> nunique s \<le> 20) \<and>
        (c \<in> set (cat_mid r) \<longleftrightarrow>
           dtype s \<notin> {dt_bool, dt_int, dt_float} \<and> 20 < nunique s \<and> nunique s \<le> 200) \<and>
        (c \<in> set (cat_high r) \<longleftrightarrow>
           dtype s \<notin> {dt_bool, dt_int, dt_float} \<and> 200 < nunique s))" ..
  note run = r [THEN conjunct1]
  note cover = r [THEN conjunct2, THEN conjunct1]
  note disj = r [THEN conjunct2, THEN conjunct2, THEN conjunct1]
  have "fst ` set (columns ?X) = {''year'', ''vip'', ''region''}" by simp
  with cover have cover': "set (num_cols r) \<union> set (bool_cols r) \<union> set (cat_low r)
      \<union> set (cat_mid r) \<union> set (cat_high r) = {''year'', ''vip'', ''region''}"
    by (rule trans)
  from run cover' disj have "\<exists>r. detect_columns ?X = Inr r \<and>
      set (num_cols r) \<union> set (bool_cols r) \<union> set (cat_low r) \<union> set (cat_mid r)
        \<union> set (cat_high r) = {''year'', ''vip'', ''region''} \<and>
      set (num_cols r) \<inter> set (bool_cols r) = {}"
    by (intro exI [of _ r] conjI)
  with d show ?thesis by (rule conjI)
qed

subsection \<open>The weights of the ensemble\<close>

lemma foldl_np_add_Fin: "foldl np_add (Fin a) (map Fin xs) = Fin (a + sum_list xs)"
  by (induction xs arbitrary: a) (simp_all add: add.assoc)

lemma py_sum_Fin: "py_sum (map Fin xs) = Fin (sum_list xs)"
  by (simp add: py_sum_def foldl_np_add_Fin)

lemma py_sum_map_Fin: "py_sum (map (\<lambda>p. Fin (f p)) es) = Fin (sum_list (map f es))"
  using py_sum_Fin [of "map f es"] by (simp add: o_def)

lemma inverse_errors_Fin:
  "\<forall>(k, x) \<in> set es. 0 < x \<Longrightarrow>
   inverse_errors (map (\<lambda>(k, x). (k, Fin x)) es) = map (\<lambda>(k, x). (k, Fin (1 / x))) es"
  by (induction es) (auto simp: inverse_errors_def)

lemma sum_list_inverse_pos:
  "es \<noteq> [] \<Longrightarrow> \<forall>(k, x) \<in> set es. 0 < x \<Longrightarrow> 0 < (\<Sum>(k, x)\<leftarrow>es. 1 / x :: real)"
proof (induction es)
  case Nil
  then show ?case by simp
next
  case (Cons a es)
  obtain k x where a: "a = (k, x)" by (cases a)
  with Cons.prems have x: "0 < 1 / x" by simp
  show ?case
  proof (cases "es = []")
    case True
    with a x show ?thesis by simp
  next
    case False
    with Cons have "0 < (\<Sum>(k, x)\<leftarrow>es. 1 / x)" by simp
    with a x show ?thesis by (simp add: add_pos_pos)
  qed
qed


lemma normalize_Fin:
  assumes "es \<noteq> []" "\<forall>(k, x) \<in> set es. 0 < x"
  shows "normalize_weights (map (\<lambda>(k, x). (k, Fin (1 / x))) es)
         = map (\<lambda>(k, x). (k, Fin ((1 / x) / (\<Sum>(k, x)\<leftarrow>es. 1 / x)))) es"
proof -
  from sum_list_inverse_pos [OF assms] have "(\<Sum>(k, x)\<leftarrow>es. 1 / x) \<noteq> 0" by simp
  then show ?thesis
    by (simp add: normalize_weights_def py_sum_map_Fin split_def o_def)
qed




subsection \<open>Missing columns\<close>

lemma getitem_missing:
  "label \<notin> fst ` set (columns df) \<Longrightarrow> getitem df label = Inl (KeyError [label])"
proof -
  assume "label \<notin> fst ` set (columns df)"
  then have "filter (\<lambda>(c, s). c = label) (columns df) = []"
    by (force simp: filter_empty_conv)
  then show ?thesis by (simp add: getitem_def)
qed

lemma df_drop_ignore:
  "df_drop df labels Ignore =
   Inr (df\<lparr>columns := filter (\<lambda>(c, s). c \<notin> set labels) (columns df)\<rparr>)"
  by (simp add: df_drop_def)

lemma isl_and_then: "(\<And>x. isl (f x)) \<Longrightarrow> isl (and_then m f)"
  by (cases m) simp_all

lemma submission_cell_no_id:
  "''id'' \<notin> fst ` set (columns test_df) \<Longrightarrow>
   submission_cell test_df preds = Inl (KeyError [''id''])"
  by (simp add: submission_cell_def getitem_missing)

lemma notebook_no_target:
  "TARGET \<notin> fst ` set (columns train_df) \<Longrightarrow>
   notebook lib train_df test_df = Inl (KeyError [TARGET])"
  by (simp add: notebook_def df_drop_ignore getitem_missing)

lemma notebook_no_id:
  assumes "''id'' \<notin> fst ` set (columns test_df)"
  shows "isl (notebook lib train_df test_df)"
  unfolding notebook_def Let_def
  by (intro isl_and_then) (simp add: submission_cell_no_id [OF assms] isl_and_then
      split: selection.split)

text \<open>
  C9. Dropping the columns of \<^verbatim>\<open>DROP_COLS\<close> never raises, whether or not the table has
  them; selecting the target raises \<^verbatim>\<open>KeyError\<close> when the training table has no target
  column, and so does the run; building the submission raises \<^verbatim>\<open>KeyError\<close> when the test
  table has no identifier column, and the run ends with an exception.
\<close>

theorem drop_tolerant_required_columns_raise:
  "df_drop df DROP_COLS Ignore =
     Inr (df\<lparr>columns := filter (\<lambda>(c, s). c \<notin> set DROP_COLS) (columns df)\<rparr>) \<and>
   (TARGET \<notin> fst ` set (columns train_df) \<longrightarrow>
      getitem train_df TARGET = Inl (KeyError [TARGET]) \<and>
      notebook lib train_df test_df = Inl (KeyError [TARGET])) \<and>
   (''id'' \<notin> fst ` set (columns test_df) \<longrightarrow>
      submission_cell test_df preds = Inl (KeyError [''id'']) \<and>
      isl (notebook lib train_df test_df))"
  by (simp add: df_drop_ignore getitem_missing notebook_no_target submission_cell_no_id
      notebook_no_id)

theorem drop_tolerant_required_columns_raise_witness:
  "TARGET \<notin> fst ` set (columns \<lparr>nrows = 1, columns =
       [(''id'', \<lparr>dtype = dt_int, cells = [Some (Num 1)]\<rparr>),
        (''year'', \<lparr>dtype = dt_int, cells = [Some (Num 2020)]\<rparr>)]\<rparr>) \<and>
   ''id'' \<notin> fst ` set (columns \<lparr>nrows = 1, columns =
       [(''year'', \<lparr>dtype = dt_int, cells = [Some (Num 2021)]\<rparr>)]\<rparr>) \<and>
   df_drop \<lparr>nrows = 1, columns =
       [(''id'', \<lparr>dtype = dt_int, cells = [Some (Num 1)]\<rparr>),
        (''year'', \<lparr>dtype = dt_int, cells = [Some (Num 2020)]\<rparr>)]\<rparr> DROP_COLS Ignore =
     Inr \<lparr>nrows = 1, columns = [(''year'', \<lparr>dtype = dt_int, cells = [Some (Num 2020)]\<rparr>)]\<rparr> \<and>
   notebook \<lparr>discretize = (\<lambda>y. Inr []), kf_split = (\<lambda>n b. Inl ValueError),
             pipelines = (\<lambda>c. [] :: (string \<times> unit pipeline) list)\<rparr>
     \<lparr>nrows = 1, columns =
       [(''id'', \<lparr>dtype = dt_int, cells = [Some (Num 1)]\<rparr>),
        (''year'', \<lparr>dtype = dt_int, cells = [Some (Num 2020)]\<rparr>)]\<rparr>
     \<lparr>nrows = 1, columns = [(''year'', \<lparr>dtype = dt_int, cells = [Some (Num 2021)]\<rparr>)]\<rparr>
     = Inl (KeyError [''log_price'']) \<and>
   submission_cell \<lparr>nrows = 1, columns =
       [(''year'', \<lparr>dtype = dt_int, cells = [Some (Num 2021)]\<rparr>)]\<rparr> (Array [Fin 1])
     = Inl (KeyError [''id''])"
  using drop_tolerant_required_columns_raise
    [of "\<lparr>nrows = 1, columns =
       [(''id'', \<lparr>dtype = dt_int, cells = [Some (Num 1)]\<rparr>),
        (''year'', \<lparr>dtype = dt_int, cells = [Some (Num 2020)]\<rparr>)]\<rparr>"
        "\<lparr>nrows = 1, columns =
       [(''id'', \<lparr>dtype = dt_int, cells = [Some (Num 1)]\<rparr>),
        (''year'', \<lparr>dtype = dt_int, cells = [Some (Num 2020)]\<rparr>)]\<rparr>"
        "\<lparr>discretize = (\<lambda>y. Inr []), kf_split = (\<lambda>n b. Inl ValueError),
             pipelines = (\<lambda>c. [] :: (string \<times> unit pipeline) list)\<rparr>"
        "\<lparr>nrows = 1, columns = [(''year'', \<lparr>dtype = dt_int, cells = [Some (Num 2021)]\<rparr>)]\<rparr>"
        "Array [Fin 1]"]
  by (simp add: TARGET_def DROP_COLS_def)

subsection \<open>The submission\<close>

lemma clip_min0_Fin: "clip_min0 (Fin x) = Fin (if x < 0 then 0 else x)"
  by (simp add: max_def)

text \<open>
  C8. For a vector of predictions with one value per test row, the submission has one row
  per test row, the identifiers of the test table in their order, each paired with its
  prediction clipped below at 0: a negative value becomes 0, any other finite value and
  \<open>inf\<close> are kept.
\<close>

theorem submission_rows:
  assumes "distinct (map fst (columns test_df))" and "(''id'', ids) \<in> set (columns test_df)"
    and "wf_frame test_df" and "length preds = nrows test_df"
  shows "submission_cell test_df (Array preds) = Inr (zip (cells ids) (map clip_min0 preds)) \<and>
         length (cells ids) = nrows test_df \<and>
         length (map clip_min0 preds) = nrows test_df \<and>
         (\<forall>x. clip_min0 (Fin x) = Fin (if x < 0 then 0 else x)) \<and>
         clip_min0 PInf = PInf"
proof -
  from assms(2,3) have len: "length (cells ids) = nrows test_df"
    by (auto simp: wf_frame_def)
  from assms(1,2) have "getitem test_df ''id'' = Inr (Column ids)"
    by (rule getitem_distinct)
  with len assms(4) show ?thesis
    by (simp add: submission_cell_def clip_min0_Fin)
qed

theorem submission_rows_witness:
  "distinct (map fst (columns \<lparr>nrows = 2, columns =
       [(''id'', \<lparr>dtype = dt_int, cells = [Some (Num 7), Some (Num 9)]\<rparr>)]\<rparr>)) \<and>
   (''id'', \<lparr>dtype = dt_int, cells = [Some (Num 7), Some (Num 9)]\<rparr>) \<in> set (columns \<lparr>nrows = 2,
       columns = [(''id'', \<lparr>dtype = dt_int, cells = [Some (Num 7), Some (Num 9)]\<rparr>)]\<rparr>) \<and>
   wf_frame \<lparr>nrows = 2, columns =
       [(''id'', \<lparr>dtype = dt_int, cells = [Some (Num 7), Some (Num 9)]\<rparr>)]\<rparr> \<and>
   length [Fin (- 3 / 2), Fin (427 / 10)] = nrows \<lparr>nrows = 2, columns =
       [(''id'', \<lparr>dtype = dt_int, cells = [Some (Num 7), Some (Num 9)]\<rparr>)]\<rparr> \<and>
   submission_cell \<lparr>nrows = 2, columns =
       [(''id'', \<lparr>dtype = dt_int, cells = [Some (Num 7), Some (Num 9)]\<rparr>)]\<rparr>
       (Array [Fin (- 3 / 2), Fin (427 / 10)])
     = Inr [(Some (Num 7), Fin 0), (Some (Num 9), Fin (427 / 10))]"
  using submission_rows [of "\<lparr>nrows = 2, columns =
       [(''id'', \<lparr>dtype = dt_int, cells = [Some (Num 7), Some (Num 9)]\<rparr>)]\<rparr>"
       "\<lparr>dtype = dt_int, cells = [Some (Num 7), Some (Num 9)]\<rparr>"
       "[Fin (- 3 / 2), Fin (427 / 10)]"]
  by (simp add: wf_frame_def)

subsection \<open>The exponential and its range\<close>

declare np_exp.simps(1) [simp del]

lemma ln2_pos: "0 < ln (2 :: real)"
  by simp

lemma exp_underflow_neg: "exp_underflow < 0"
  by (simp add: exp_underflow_def)

lemma exp_overflow_pos: "0 < exp_overflow"
  by (simp add: exp_overflow_def)

lemma ln2_in_range: "exp_underflow < ln 2 \<and> ln 2 < exp_overflow"
  using ln2_pos by (simp add: exp_underflow_def exp_overflow_def)

lemma ln3_in_range: "exp_underflow < ln 3 \<and> ln 3 < exp_overflow"
proof -
  have "ln (3 :: real) \<le> ln 4" by simp
  also have "ln (4 :: real) = 2 * ln 2"
    using ln_realpow [of 2 2] by simp
  finally have "ln (3 :: real) < 1024 * ln 2" using ln2_pos by linarith
  moreover have "0 < ln (3 :: real)" by simp
  with ln2_pos have "- (1075 * ln 2) < ln (3 :: real)" by linarith
  ultimately show ?thesis
    by (simp only: exp_underflow_def exp_overflow_def)
qed

lemma np_exp_0 [simp]: "np_exp (Fin 0) = Fin 1"
  using exp_underflow_neg exp_overflow_pos by (simp add: np_exp.simps)

lemma np_exp_ln2 [simp]: "np_exp (Fin (ln 2)) = Fin 2"
  using ln2_in_range by (simp add: np_exp.simps)

lemma np_exp_ln3 [simp]: "np_exp (Fin (ln 3)) = Fin 3"
  using ln3_in_range by (simp add: np_exp.simps)

lemma np_exp_sign: "np_exp v = NaN \<or> np_exp v = PInf \<or> (\<exists>x \<ge> 0. np_exp v = Fin x)"
  by (cases v) (simp_all add: np_exp.simps)

lemma underflow_lt_overflow: "exp_underflow < exp_overflow"
  using exp_underflow_neg exp_overflow_pos by linarith

lemma np_exp_cases:
  "((\<exists>z > 0. np_exp (Fin x) = Fin z) \<longleftrightarrow> exp_underflow < x \<and> x < exp_overflow) \<and>
   (np_exp (Fin x) = Fin 0 \<longleftrightarrow> x \<le> exp_underflow) \<and>
   (np_exp (Fin x) = PInf \<longleftrightarrow> exp_overflow \<le> x)"
  using underflow_lt_overflow by (auto simp: np_exp.simps)

lemma ln2_le: "ln (2 :: real) \<le> 32 / 43"
proof -
  have "(2 :: real) \<le> 1 + 32 / 43 + (32 / 43)\<^sup>2 / 2" by (simp add: power2_eq_square)
  also have "\<dots> \<le> exp (32 / 43)" by (rule exp_lower_Taylor_quadratic) simp
  finally have "exp (ln 2) \<le> exp (32 / 43 :: real)" by simp
  then show ?thesis by (simp only: exp_le_cancel_iff)
qed

lemma np_exp_low [simp]: "np_exp (Fin (- 800)) = Fin 0"
proof -
  from ln2_le have "(- 800 :: real) \<le> exp_underflow" by (simp add: exp_underflow_def)
  moreover have "\<not> exp_overflow \<le> - 800" using exp_overflow_pos by simp
  ultimately show ?thesis by (simp add: np_exp.simps)
qed

lemma those_finite_exp:
  "\<forall>x \<in> set xs. x < exp_overflow \<Longrightarrow>
   those (map (\<lambda>x. finite_value (np_exp (Fin x))) xs)
   = Some (map (\<lambda>x. if x \<le> exp_underflow then 0 else exp x) xs)"
  by (induction xs) (simp_all add: np_exp.simps)

lemma those_length: "those xs = Some ys \<Longrightarrow> length ys = length xs"
  by (induction xs arbitrary: ys) (auto split: option.splits)

lemma smape_exp_in_range:
  assumes "\<forall>x \<in> set a. exp_underflow < x \<and> x < exp_overflow"
    and "\<forall>x \<in> set b. exp_underflow < x \<and> x < exp_overflow"
  shows "smape_exp a b = smape (map exp a) (map exp b)"
proof -
  have "map (\<lambda>x. if x \<le> exp_underflow then 0 else exp x) a = map exp a"
    using assms(1) by (intro map_cong) auto
  with those_finite_exp [of a] assms(1)
  have a: "those (map (\<lambda>x. finite_value (np_exp (Fin x))) a) = Some (map exp a)"
    by simp
  have "map (\<lambda>x. if x \<le> exp_underflow then 0 else exp x) b = map exp b"
    using assms(2) by (intro map_cong) auto
  with those_finite_exp [of b] assms(2)
  have b: "those (map (\<lambda>x. finite_value (np_exp (Fin x))) b) = Some (map exp b)"
    by simp
  show ?thesis
    unfolding smape_exp_def a b by simp
qed

lemma smape_exp_total:
  assumes "length a = length b"
  shows "\<exists>v. smape_exp a b = Inr v"
proof (cases "those (map (\<lambda>x. finite_value (np_exp (Fin x))) a)")
  case None
  with assms show ?thesis by (simp add: smape_exp_def np_binop_def)
next
  case a: (Some y_true)
  show ?thesis
  proof (cases "those (map (\<lambda>x. finite_value (np_exp (Fin x))) b)")
    case None
    with a assms show ?thesis by (simp add: smape_exp_def np_binop_def)
  next
    case b: (Some y_pred)
    from those_length [OF a] have "length y_true = length a" by simp
    moreover from those_length [OF b] have "length y_pred = length b" by simp
    ultimately have "length y_true = length y_pred" using assms by simp
    with a b show ?thesis by (simp add: smape_exp_def smape_eq)
  qed
qed

lemma smape_exp_case:
  "length a = length b \<Longrightarrow> (case smape_exp a b of Inl e \<Rightarrow> f e | Inr v \<Rightarrow> c) = c"
  using smape_exp_total [of a b] by auto

lemma smape_exp_example:
  assumes "\<forall>x \<in> set b. x = 0 \<or> x = ln 2 \<or> x = ln 3"
  shows "smape_exp (replicate 10 (ln 3)) b = smape (replicate 10 3) (map exp b)"
proof -
  have "\<forall>x \<in> set b. exp_underflow < x \<and> x < exp_overflow"
    using assms ln2_in_range ln3_in_range exp_underflow_neg exp_overflow_pos by auto
  moreover have "\<forall>x \<in> set (replicate 10 (ln 3 :: real)). exp_underflow < x \<and> x < exp_overflow"
    using ln3_in_range by simp
  ultimately have "smape_exp (replicate 10 (ln 3)) b
      = smape (map exp (replicate 10 (ln 3))) (map exp b)"
    by (intro smape_exp_in_range)
  then show ?thesis by simp
qed

subsection \<open>The cross-validation loop\<close>

lemma fold_update_length:
  "length (fold (\<lambda>(i, x) b. b[i := x]) ps a) = length (a :: real list)"
  by (induction ps arbitrary: a) (auto simp: split_def)

lemma fold_update_other:
  "i \<notin> fst ` set ps \<Longrightarrow> fold (\<lambda>(i, x) b. b[i := x]) ps a ! i = (a :: real list) ! i"
  by (induction ps arbitrary: a) (auto simp: split_def)

lemma fold_update_hit:
  "distinct (map fst ps) \<Longrightarrow> (i, x) \<in> set ps \<Longrightarrow> i < length a \<Longrightarrow>
   fold (\<lambda>(i, x) b. b[i := x]) ps a ! i = (x :: real)"
proof (induction ps arbitrary: a)
  case Nil
  then show ?case by simp
next
  case (Cons p ps)
  obtain i' x' where p: "p = (i', x')" by (cases p)
  show ?case
  proof (cases "(i, x) \<in> set ps")
    case True
    with Cons.prems p have "distinct (map fst ps)" "i < length (a[i' := x'])" by simp_all
    with Cons.IH True show ?thesis by (simp add: p)
  next
    case False
    with Cons.prems p have eq: "i' = i" "x' = x" by auto
    with Cons.prems p have "i \<notin> fst ` set ps" by auto
    then have "fold (\<lambda>(i, x) b. b[i := x]) ps (a[i := x]) ! i = a[i := x] ! i"
      by (rule fold_update_other)
    with Cons.prems show ?thesis by (simp add: p eq)
  qed
qed

lemma fold_broadcast:
  "fold (\<lambda>i b. b[i := c]) idx a = fold (\<lambda>(i, x) b. b[i := x]) (map (\<lambda>i. (i, c)) idx) a"
  by (induction idx arbitrary: a) simp_all

lemma setitem_pairs:
  "setitem a idx v = Inr a' \<Longrightarrow>
   a' = fold (\<lambda>(i, x) b. b[i := x]) (assignments v idx) a \<and> (\<forall>i \<in> set idx. i < length a)"
  by (auto simp: setitem_def assignments_def fold_broadcast not_le split: if_splits)

lemma fst_pairs: "fst ` set (assignments v idx) \<subseteq> set idx"
  by (auto simp: assignments_def dest: set_zip_leftD)

lemma map_fst_pairs: "map fst (assignments v idx) = idx"
  by (simp add: assignments_def o_def)

lemma pairs_nth: "j < length idx \<Longrightarrow> (idx ! j, written v idx j) \<in> set (assignments v idx)"
  by (auto simp: assignments_def written_def set_zip)

lemma setitem_length: "setitem a idx v = Inr a' \<Longrightarrow> length a' = length a"
  by (auto dest!: setitem_pairs simp: fold_update_length)

lemma setitem_other: "setitem a idx v = Inr a' \<Longrightarrow> i \<notin> set idx \<Longrightarrow> a' ! i = a ! i"
  using fst_pairs [of v idx] by (auto dest!: setitem_pairs intro!: fold_update_other)

lemma setitem_written:
  assumes "setitem a idx v = Inr a'" "distinct idx" "j < length idx"
  shows "a' ! (idx ! j) = written v idx j"
proof -
  from setitem_pairs [OF assms(1)]
  have a': "a' = fold (\<lambda>(i, x) b. b[i := x]) (assignments v idx) a"
    and bound: "idx ! j < length a" using assms(3) by auto
  from assms(2) have "distinct (map fst (assignments v idx))" by (simp add: map_fst_pairs)
  from fold_update_hit [OF this pairs_nth [OF assms(3)] bound] show ?thesis
    by (simp add: a')
qed

lemma train_fold_done:
  assumes "train_fold pl n (tr, va) st = (st', None)"
  shows "\<exists>m p. fit pl tr = Inr m \<and> predict pl m (Val va) = Inr p \<and>
           setitem (oof_preds st) va p = Inr (oof_preds st')"
  using assms
  by (auto simp: train_fold_def Let_def split: if_splits sum.splits)

lemma train_fold_oof_length:
  "train_fold pl n f st = (st', r) \<Longrightarrow> length (oof_preds st') = length (oof_preds st)"
  by (cases f)
     (auto simp: train_fold_def Let_def setitem_length split: if_splits sum.splits)

lemma cv_loop_oof_length:
  "cv_loop pl n fs st = (st', r) \<Longrightarrow> length (oof_preds st') = length (oof_preds st)"
proof (induction fs arbitrary: st)
  case Nil
  then show ?case by simp
next
  case (Cons f fs)
  obtain st1 r1 where f: "train_fold pl n f st = (st1, r1)" by (cases "train_fold pl n f st")
  show ?case
  proof (cases r1)
    case None
    with Cons.prems f have "cv_loop pl n fs st1 = (st', r)" by simp
    with Cons.IH train_fold_oof_length [OF f] show ?thesis by simp
  next
    case (Some e)
    with Cons.prems f have "st' = st1" by simp
    with train_fold_oof_length [OF f] show ?thesis by simp
  qed
qed

lemma cv_loop_other:
  "cv_loop pl n fs st = (st', None) \<Longrightarrow> i \<notin> set (concat (map snd fs)) \<Longrightarrow>
   oof_preds st' ! i = oof_preds st ! i"
proof (induction fs arbitrary: st)
  case Nil
  then show ?case by simp
next
  case (Cons f fs)
  obtain tr va where fv: "f = (tr, va)" by (cases f)
  obtain st1 r1 where f: "train_fold pl n (tr, va) st = (st1, r1)"
    by (cases "train_fold pl n (tr, va) st")
  with Cons.prems fv have r1: "r1 = None" and rest: "cv_loop pl n fs st1 = (st', None)"
    by (auto split: option.splits)
  from train_fold_done [OF f [unfolded r1]] obtain m p where
    "setitem (oof_preds st) va p = Inr (oof_preds st1)" by blast
  moreover from Cons.prems fv have "i \<notin> set va" by simp
  ultimately have "oof_preds st1 ! i = oof_preds st ! i" by (rule setitem_other)
  moreover from Cons.prems have "i \<notin> set (concat (map snd fs))" by simp
  with Cons.IH rest have "oof_preds st' ! i = oof_preds st1 ! i" by blast
  ultimately show ?case by simp
qed

lemma cv_loop_written:
  assumes "cv_loop pl n fs st = (st', None)" "distinct (concat (map snd fs))" "k < length fs"
  shows "\<exists>m p. fit pl (fst (fs ! k)) = Inr m \<and> predict pl m (Val (snd (fs ! k))) = Inr p \<and>
           (\<forall>j < length (snd (fs ! k)).
              oof_preds st' ! (snd (fs ! k) ! j) = written p (snd (fs ! k)) j)"
  using assms
proof (induction fs arbitrary: st k)
  case Nil
  then show ?case by simp
next
  case (Cons f fs)
  obtain tr va where fv: "f = (tr, va)" by (cases f)
  obtain st1 r1 where f: "train_fold pl n (tr, va) st = (st1, r1)"
    by (cases "train_fold pl n (tr, va) st")
  with Cons.prems fv have r1: "r1 = None" and rest: "cv_loop pl n fs st1 = (st', None)"
    by (auto split: option.splits)
  from Cons.prems(2) fv have dva: "distinct va" and dfs: "distinct (concat (map snd fs))"
    and disj: "set va \<inter> set (concat (map snd fs)) = {}" by auto
  show ?case
  proof (cases k)
    case 0
    from train_fold_done [OF f [unfolded r1]] obtain m p where
      m: "fit pl tr = Inr m" and p: "predict pl m (Val va) = Inr p"
      and s: "setitem (oof_preds st) va p = Inr (oof_preds st1)" by blast
    have "oof_preds st' ! (va ! j) = written p va j" if "j < length va" for j
    proof -
      from that disj have "va ! j \<notin> set (concat (map snd fs))"
        using nth_mem by blast
      with rest have "oof_preds st' ! (va ! j) = oof_preds st1 ! (va ! j)"
        by (rule cv_loop_other)
      with setitem_written [OF s dva that] show ?thesis by simp
    qed
    with m p 0 fv show ?thesis by auto
  next
    case (Suc k')
    with Cons.prems(3) have "k' < length fs" by simp
    from Cons.IH [OF rest dfs this] Suc show ?thesis by simp
  qed
qed

lemma partition_unique_fold:
  assumes "distinct (concat (map snd fs))" "i \<in> set (concat (map snd fs))"
  shows "\<exists>!k. k < length fs \<and> i \<in> set (snd (fs ! k))"
  using assms
proof (induction fs)
  case Nil
  then show ?case by simp
next
  case (Cons f fs)
  from Cons.prems(1) have dfs: "distinct (concat (map snd fs))"
    and disj: "set (snd f) \<inter> set (concat (map snd fs)) = {}" by auto
  show ?case
  proof (cases "i \<in> set (snd f)")
    case True
    with disj have notin: "i \<notin> set (concat (map snd fs))" by auto
    have "\<And>k. k < length (f # fs) \<and> i \<in> set (snd ((f # fs) ! k)) \<Longrightarrow> k = 0"
    proof -
      fix k assume k: "k < length (f # fs) \<and> i \<in> set (snd ((f # fs) ! k))"
      show "k = 0"
      proof (cases k)
        case 0 then show ?thesis .
      next
        case (Suc k')
        with k have "k' < length fs" "i \<in> set (snd (fs ! k'))" by simp_all
        then have "i \<in> set (concat (map snd fs))" by (auto intro!: bexI [of _ "fs ! k'"])
        with notin show ?thesis by simp
      qed
    qed
    with True show ?thesis by (intro ex1I [of _ 0]) auto
  next
    case False
    with Cons.prems(2) have "i \<in> set (concat (map snd fs))" by simp
    from Cons.IH [OF dfs this] obtain k where k: "k < length fs" "i \<in> set (snd (fs ! k))"
      and uniq: "\<And>k'. k' < length fs \<and> i \<in> set (snd (fs ! k')) \<Longrightarrow> k' = k" by blast
    show ?thesis
    proof (intro ex1I [of _ "Suc k"])
      from k show "Suc k < length (f # fs) \<and> i \<in> set (snd ((f # fs) ! Suc k))" by simp
    next
      fix k' assume k': "k' < length (f # fs) \<and> i \<in> set (snd ((f # fs) ! k'))"
      show "k' = Suc k"
      proof (cases k')
        case 0
        with k' False show ?thesis by simp
      next
        case (Suc k'')
        with k' have "k'' < length fs \<and> i \<in> set (snd (fs ! k''))" by simp
        from uniq [OF this] Suc show ?thesis by simp
      qed
    qed
  qed
qed

lemma count_list_distinct:
  "distinct xs \<Longrightarrow> x \<in> set xs \<Longrightarrow> count_list xs x = 1"
  by (induction xs) auto

lemma train_model_done:
  "train_model pl n y (Inr folds) st = (st', None) \<Longrightarrow> cv_loop pl n folds st = (st', None)"
  by (auto simp: train_model_def split: prod.splits option.splits sum.splits)

text \<open>
  C7. The folds are those of the splitter, whose contract \<open>kfold_partition\<close> is taken
  as given: ten folds whose validation parts are disjoint and cover the \<open>n\<close> training
  rows. Then every row belongs to the validation part of exactly one fold and is written
  exactly once, and when a model has completed all folds every entry of its out-of-fold
  store holds the value that was predicted for the row in the fold that held the row out.
\<close>

theorem oof_filled_exactly_once:
  assumes part: "kfold_partition n folds"
    and len: "length y = n"
    and run: "train_model pl n y (Inr folds)
                 \<lparr>oof_preds = replicate (length y) 0, test_preds = replicate n_test 0\<rparr>
               = (st, None)"
  shows "length folds = 10 \<and> length (oof_preds st) = n \<and>
         (\<forall>i < n. \<exists>!k. k < length folds \<and> i \<in> set (snd (folds ! k))) \<and>
         (\<forall>i < n. count_list (concat (map snd folds)) i = 1) \<and>
         (\<forall>k < length folds. \<exists>m p.
            fit pl (fst (folds ! k)) = Inr m \<and>
            predict pl m (Val (snd (folds ! k))) = Inr p \<and>
            (\<forall>j < length (snd (folds ! k)).
               oof_preds st ! (snd (folds ! k) ! j) = written p (snd (folds ! k)) j))"
proof -
  from part have d: "distinct (concat (map snd folds))"
    and all: "set (concat (map snd folds)) = {..<n}" and k10: "length folds = 10"
    by (simp_all add: kfold_partition_def N_SPLITS_def)
  from run have loop: "cv_loop pl n folds
      \<lparr>oof_preds = replicate (length y) 0, test_preds = replicate n_test 0\<rparr> = (st, None)"
    by (rule train_model_done)
  from cv_loop_oof_length [OF loop] len have l: "length (oof_preds st) = n" by simp
  have u: "\<forall>i < n. \<exists>!k. k < length folds \<and> i \<in> set (snd (folds ! k))"
  proof (intro allI impI)
    fix i assume "i < n"
    with all have "i \<in> set (concat (map snd folds))" by blast
    with d show "\<exists>!k. k < length folds \<and> i \<in> set (snd (folds ! k))"
      by (rule partition_unique_fold)
  qed
  have c: "\<forall>i < n. count_list (concat (map snd folds)) i = 1"
  proof (intro allI impI)
    fix i assume "i < n"
    with all have "i \<in> set (concat (map snd folds))" by blast
    with d show "count_list (concat (map snd folds)) i = 1"
      by (rule count_list_distinct)
  qed
  have w: "\<forall>k < length folds. \<exists>m p.
            fit pl (fst (folds ! k)) = Inr m \<and>
            predict pl m (Val (snd (folds ! k))) = Inr p \<and>
            (\<forall>j < length (snd (folds ! k)).
               oof_preds st ! (snd (folds ! k) ! j) = written p (snd (folds ! k)) j)"
    using cv_loop_written [OF loop d] by blast
  from k10 l u c w show ?thesis by blast
qed

subsection \<open>The example run\<close>

lemma upt10: "[0..<10] = [0, 1, 2, 3, 4, 5, 6, 7, 8, 9 :: nat]"
  by (simp add: upt_rec)

lemma lessThan10: "{..<10 :: nat} = {0, 1, 2, 3, 4, 5, 6, 7, 8, 9}"
  by auto

lemma example_partition: "kfold_partition 10 example_folds"
  unfolding kfold_partition_def N_SPLITS_def example_folds_def upt10 lessThan10
  by (simp, auto)

lemma length_example_y: "length example_y = 10"
  by (simp add: example_y_def)

lemma train_steady:
  "train_model steady_model 10 example_y (Inr example_folds)
     \<lparr>oof_preds = replicate (length example_y) 0, test_preds = replicate 2 0\<rparr>
   = (\<lparr>oof_preds = replicate 10 (ln 2), test_preds = [ln 2, ln 2]\<rparr>, None)"
  by (simp add: train_model_def example_folds_def upt10 steady_model_def train_fold_def
      setitem_def iadd_def N_SPLITS_def example_y_def smape_exp_case numeral_eq_Suc)

theorem oof_filled_exactly_once_witness:
  "kfold_partition 10 example_folds \<and> length example_y = 10 \<and>
   train_model steady_model 10 example_y (Inr example_folds)
     \<lparr>oof_preds = replicate (length example_y) 0, test_preds = replicate 2 0\<rparr>
   = (\<lparr>oof_preds = replicate 10 (ln 2), test_preds = [ln 2, ln 2]\<rparr>, None) \<and>
   (\<exists>!k. k < length example_folds \<and> 3 \<in> set (snd (example_folds ! k))) \<and>
   count_list (concat (map snd example_folds)) 3 = 1"
proof -
  note inst = oof_filled_exactly_once [OF example_partition length_example_y train_steady]
  from inst have "\<forall>i < 10. \<exists>!k. k < length example_folds \<and> i \<in> set (snd (example_folds ! k))"
    by (elim conjE)
  then have a: "\<exists>!k. k < length example_folds \<and> 3 \<in> set (snd (example_folds ! k))"
    by simp
  from inst have "\<forall>i < 10. count_list (concat (map snd example_folds)) i = 1"
    by (elim conjE)
  then have b: "count_list (concat (map snd example_folds)) 3 = 1"
    by simp
  from example_partition length_example_y train_steady a b show ?thesis
    by (intro conjI)
qed

subsection \<open>Stores and the ensemble cell\<close>

lemma and_then_eq_Inr: "and_then m f = Inr r \<longleftrightarrow> (\<exists>x. m = Inr x \<and> f x = Inr r)"
  by (cases m) simp_all

lemma map_raising_pure:
  "(\<And>x. x \<in> set xs \<Longrightarrow> f x = Inr (g x)) \<Longrightarrow> map_raising f xs = Inr (map g xs)"
  by (induction xs) simp_all

lemma map_raising_Inr:
  "map_raising f xs = Inr vs \<Longrightarrow> list_all2 (\<lambda>x v. f x = Inr v) xs vs"
  by (induction xs arbitrary: vs) (auto simp: and_then_eq_Inr)

lemma train_fold_lengths:
  "train_fold pl n f st = (st', r) \<Longrightarrow>
   length (oof_preds st') = length (oof_preds st) \<and>
   length (test_preds st') = length (test_preds st)"
  by (cases f)
     (auto simp: train_fold_def Let_def setitem_length iadd_def
           split: if_splits sum.splits)

lemma cv_loop_lengths:
  "cv_loop pl n fs st = (st', r) \<Longrightarrow>
   length (oof_preds st') = length (oof_preds st) \<and>
   length (test_preds st') = length (test_preds st)"
proof (induction fs arbitrary: st)
  case Nil
  then show ?case by simp
next
  case (Cons f fs)
  obtain st1 r1 where f: "train_fold pl n f st = (st1, r1)" by (cases "train_fold pl n f st")
  show ?case
  proof (cases r1)
    case None
    with Cons.prems f have "cv_loop pl n fs st1 = (st', r)" by simp
    with Cons.IH train_fold_lengths [OF f] show ?thesis by simp
  next
    case (Some e)
    with Cons.prems f have "st' = st1" by simp
    with train_fold_lengths [OF f] show ?thesis by simp
  qed
qed

lemma train_model_lengths:
  "train_model pl n y split st = (st', r) \<Longrightarrow>
   length (oof_preds st') = length (oof_preds st) \<and>
   length (test_preds st') = length (test_preds st)"
  by (auto simp: train_model_def dest: cv_loop_lengths
           split: sum.splits prod.splits option.splits)

lemma train_all_names: "map fst (train_all pls n y n_test split) = map fst pls"
  by (simp add: train_all_def split_def o_def)

lemma train_all_lengths:
  fixes pls :: "(string \<times> 'f pipeline) list"
  assumes "(k, st, r) \<in> set (train_all pls n y n_test split)"
  shows "length (oof_preds st) = length y \<and> length (test_preds st) = n_test"
proof -
  from assms obtain pl :: "'f pipeline" where
    "train_model pl n y split
       \<lparr>oof_preds = replicate (length y) 0, test_preds = replicate n_test 0\<rparr> = (st, r)"
    by (auto simp: train_all_def)
  from train_model_lengths [OF this] show ?thesis by simp
qed

lemma normalize_weights_names: "map fst (normalize_weights invs) = map fst invs"
  by (simp add: normalize_weights_def split_def o_def)

lemma inverse_errors_names: "map fst (inverse_errors errs) = map fst errs"
  by (simp add: inverse_errors_def split_def o_def)

lemma dict_get_present:
  "k \<in> set (map fst d) \<Longrightarrow> dict_get d k = Inr (the (map_of d k))"
proof -
  assume "k \<in> set (map fst d)"
  then have "map_of d k \<noteq> None" by (simp add: map_of_eq_None_iff)
  then show ?thesis by (auto simp: dict_get_def)
qed

lemma nd_sum_arrays:
  "\<forall>t \<in> set ts. \<exists>a. t = Array a \<and> length a = m \<Longrightarrow> length b = m \<Longrightarrow>
   \<exists>c. nd_sum (Array b) ts = Inr (Array c) \<and> length c = m"
proof (induction ts arbitrary: b)
  case Nil
  then show ?case by simp
next
  case (Cons t ts)
  from Cons.prems obtain a where t: "t = Array a" and a: "length a = m" by auto
  with Cons.prems have "nd_add (Array b) t = Inr (Array (map2 np_add b a))"
    by (simp add: np_binop_def)
  moreover from a Cons.prems have "length (map2 np_add b a) = m" by simp
  with Cons.IH Cons.prems(1)
  have "\<exists>c. nd_sum (Array (map2 np_add b a)) ts = Inr (Array c) \<and> length c = m" by simp
  ultimately show ?case by simp
qed

lemma nd_sum_scalar:
  assumes "\<forall>t \<in> set ts. \<exists>a. t = Array a \<and> length a = m"
  shows "\<exists>r. nd_sum (Scalar s) ts = Inr r \<and> (ts = [] \<longrightarrow> r = Scalar s) \<and>
             (ts \<noteq> [] \<longrightarrow> (\<exists>c. r = Array c \<and> length c = m))"
proof (cases ts)
  case Nil
  then show ?thesis by simp
next
  case (Cons t ts')
  with assms obtain a where t: "t = Array a" and a: "length a = m" by auto
  from assms Cons have rest: "\<forall>t \<in> set ts'. \<exists>a. t = Array a \<and> length a = m" by simp
  have "length (map (np_add s) a) = m" using a by simp
  from nd_sum_arrays [OF rest this] t Cons show ?thesis by auto
qed

lemma ensemble_cell_total:
  assumes len: "\<forall>(k, st, r) \<in> set results.
                  length (oof_preds st) = length y \<and> length (test_preds st) = m"
  shows "\<exists>ens. ensemble_cell y results = Inr ens \<and>
           map fst (errors ens) = map fst results \<and>
           map fst (norm_weights ens) = map fst results \<and>
           (results = [] \<longrightarrow> ensemble_preds ens = Scalar (Fin 1)) \<and>
           (results \<noteq> [] \<longrightarrow> (\<exists>c. ensemble_preds ens = Array c \<and> length c = m))"
proof -
  define E where "E = (\<lambda>st :: store. projr (smape_exp y (oof_preds st)))"
  define errs where "errs = map (\<lambda>(name, st, err). (name, E st)) results"
  define w where "w = normalize_weights (inverse_errors errs)"
  define terms where "terms = map (\<lambda>(k, st, err).
          Array (map (\<lambda>x. np_mul (Fin x) (the (map_of w k))) (test_preds st))) results"
  have e: "map_raising
          (\<lambda>(name, st, err).
             and_then (smape_exp y (oof_preds st)) (\<lambda>v. Inr (name, v)))
          results = Inr errs"
    unfolding errs_def
  proof (rule map_raising_pure)
    fix x assume x: "x \<in> set results"
    obtain k st r where xs: "x = (k, st, r)" by (cases x)
    with x len have "length y = length (oof_preds st)" by auto
    from smape_exp_total [OF this] obtain v where "smape_exp y (oof_preds st) = Inr v" ..
    then show "(case x of (name, st, err) \<Rightarrow>
             and_then (smape_exp y (oof_preds st)) (\<lambda>v. Inr (name, v)))
          = Inr (case x of (name, st, err) \<Rightarrow> (name, E st))"
      by (simp add: xs E_def)
  qed
  have names_errs: "map fst errs = map fst results"
    by (simp add: errs_def split_def o_def)
  have names_w: "map fst w = map fst results"
    by (simp add: w_def normalize_weights_names inverse_errors_names names_errs)
  have t: "map_raising
          (\<lambda>(k, st, err).
             and_then (dict_get w k)
               (\<lambda>wk. Inr (Array (map (\<lambda>x. np_mul (Fin x) wk) (test_preds st)))))
          results = Inr terms"
    unfolding terms_def
  proof (rule map_raising_pure)
    fix x assume x: "x \<in> set results"
    obtain k st r where xs: "x = (k, st, r)" by (cases x)
    with x have "k \<in> set (map fst results)" by force
    then have "dict_get w k = Inr (the (map_of w k))"
      by (simp only: names_w [symmetric] dict_get_present)
    then show "(case x of (k, st, err) \<Rightarrow>
             and_then (dict_get w k)
               (\<lambda>wk. Inr (Array (map (\<lambda>x. np_mul (Fin x) wk) (test_preds st)))))
          = Inr (case x of (k, st, err) \<Rightarrow>
          Array (map (\<lambda>x. np_mul (Fin x) (the (map_of w k))) (test_preds st)))"
      by (simp add: xs)
  qed
  have arrays: "\<forall>t \<in> set terms. \<exists>a. t = Array a \<and> length a = m"
    using len by (auto simp: terms_def)
  from nd_sum_scalar [OF arrays, of "Fin 0"] obtain r where
    r: "nd_sum (Scalar (Fin 0)) terms = Inr r"
    and r0: "terms = [] \<longrightarrow> r = Scalar (Fin 0)"
    and r1: "terms \<noteq> [] \<longrightarrow> (\<exists>c. r = Array c \<and> length c = m)" by blast
  have empty: "terms = [] \<longleftrightarrow> results = []" by (simp add: terms_def)
  have cell: "ensemble_cell y results =
      Inr \<lparr>errors = errs, inv_errors = inverse_errors errs, norm_weights = w,
           ensemble_preds = nd_map np_exp r\<rparr>"
    unfolding ensemble_cell_def Let_def e and_then_Inr w_def [symmetric] t r ..
  from r0 empty have "results = [] \<longrightarrow> nd_map np_exp r = Scalar (Fin 1)" by simp
  moreover from r1 empty
  have "results \<noteq> [] \<longrightarrow> (\<exists>c. nd_map np_exp r = Array c \<and> length c = m)" by auto
  ultimately show ?thesis
    using cell names_errs names_w by simp
qed

lemma ensemble_cell_Inr:
  assumes "ensemble_cell y results = Inr ens"
  shows "map fst (errors ens) = map fst results \<and>
         norm_weights ens = normalize_weights (inverse_errors (errors ens)) \<and>
         map fst (norm_weights ens) = map fst results"
proof -
  from assms obtain errs terms b where
    e: "map_raising
          (\<lambda>(name, st, err).
             and_then (smape_exp y (oof_preds st)) (\<lambda>v. Inr (name, v)))
          results = Inr errs"
    and ens: "ens = \<lparr>errors = errs, inv_errors = inverse_errors errs,
                    norm_weights = normalize_weights (inverse_errors errs),
                    ensemble_preds = nd_map np_exp b\<rparr>"
    unfolding ensemble_cell_def Let_def and_then_eq_Inr by auto
  from map_raising_Inr [OF e] have "map fst errs = map fst results"
    by (induction rule: list_all2_induct) (auto simp: and_then_eq_Inr)
  with ens show ?thesis
    by (simp add: normalize_weights_names inverse_errors_names)
qed

subsection \<open>The whole run\<close>

lemma df_drop_distinct:
  "distinct (map fst (columns df)) \<Longrightarrow>
   distinct (map fst (columns (df\<lparr>columns := filter (\<lambda>(c, s). c \<notin> set labels) (columns df)\<rparr>)))"
  by (simp add: distinct_map_filter)

lemma detect_columns_returns:
  "distinct (map fst (columns X)) \<Longrightarrow> \<exists>cols. detect_columns X = Inr cols"
  by (simp add: detect_columns_distinct)

lemma submission_cell_total:
  assumes "distinct (map fst (columns test_df))" "(''id'', ids) \<in> set (columns test_df)"
    and "wf_frame test_df"
    and "preds = Scalar v \<or> (\<exists>c. preds = Array c \<and> length c = nrows test_df)"
  shows "\<exists>rows. submission_cell test_df preds = Inr rows \<and> map fst rows = cells ids \<and>
           length rows = nrows test_df"
proof -
  from assms(2,3) have len: "length (cells ids) = nrows test_df"
    by (auto simp: wf_frame_def)
  from assms(1,2) have g: "getitem test_df ''id'' = Inr (Column ids)"
    by (rule getitem_distinct)
  from assms(4) show ?thesis
  proof
    assume "preds = Scalar v"
    with g len show ?thesis by (simp add: submission_cell_def o_def)
  next
    assume "\<exists>c. preds = Array c \<and> length c = nrows test_df"
    then obtain c where "preds = Array c" "length c = nrows test_df" by blast
    with g len show ?thesis by (simp add: submission_cell_def)
  qed
qed

lemma notebook_exp_undefined:
  assumes dtr: "distinct (map fst (columns train_df))"
    and tgt: "(TARGET, y_col) \<in> set (columns train_df)"
    and ex: "\<not> exp_defined (dtype y_col)"
  shows "isl (notebook lib train_df test_df)"
proof -
  have gy: "getitem train_df TARGET = Inr (Column y_col)"
    using dtr tgt by (rule getitem_distinct)
  show ?thesis
    unfolding notebook_def df_drop_ignore and_then_Inr gy selection.case
    using ex by (intro isl_and_then) simp
qed

lemma object_target_raises:
  "notebook (example_libs models)
     (example_train\<lparr>columns :=
        [(''id'', \<lparr>dtype = dt_int, cells = map (\<lambda>i. Some (Num (real i))) [0..<10]\<rparr>),
         (''year'', \<lparr>dtype = dt_int, cells = replicate 10 (Some (Num 2020))\<rparr>),
         (''log_price'', \<lparr>dtype = dt_object, cells = replicate 10 (Some (Num (ln 3)))\<rparr>)]\<rparr>)
     example_test = Inl TypeError"
  by (simp add: notebook_def df_drop_ignore DROP_COLS_def getitem_def TARGET_def
      example_train_def example_test_def detect_columns_def col_dtype_def col_nunique_def
      in_if_def float_values_def example_libs_def exp_defined_def numeral_eq_Suc)

text \<open>
  C2, as amended: failures of models do not end the run. Whenever the tables have distinct
  labels, the training table has a target column of numbers, of a storage type that has an
  exponential, that the binning accepts and bins into an array that is not empty, and the
  test table has an identifier column, the run writes a submission with one row per test
  row, whatever the models do: their exceptions are caught, and the ensemble is computed
  from the stores as the models leave them. The run ends with an exception, and without a
  submission, only if an exception is raised outside the handler of the models.
\<close>

theorem notebook_writes_submission:
  assumes dtr: "distinct (map fst (columns train_df))"
    and dte: "distinct (map fst (columns test_df))"
    and wf: "wf_frame test_df"
    and tgt: "(TARGET, y_col) \<in> set (columns train_df)"
    and yv: "float_values y_col = Inr y"
    and ex: "exp_defined (dtype y_col)"
    and bins: "discretize lib y = Inr y_bins"
    and strata: "y_bins \<noteq> []"
    and idc: "(''id'', ids) \<in> set (columns test_df)"
  shows "\<exists>rows. notebook lib train_df test_df = Inr rows \<and> map fst rows = cells ids \<and>
           length rows = nrows test_df"
proof -
  define X where "X = train_df\<lparr>columns := filter (\<lambda>(c, s). c \<notin> set DROP_COLS) (columns train_df)\<rparr>"
  define X_test where
    "X_test = test_df\<lparr>columns := filter (\<lambda>(c, s). c \<notin> set DROP_COLS) (columns test_df)\<rparr>"
  have dX: "distinct (map fst (columns X))"
    unfolding X_def using dtr by (rule df_drop_distinct)
  then obtain cols where cols: "detect_columns X = Inr cols"
    using detect_columns_returns by blast
  have gy: "getitem train_df TARGET = Inr (Column y_col)"
    using dtr tgt by (rule getitem_distinct)
  define results where "results = train_all (pipelines lib cols) (nrows X) y (nrows X_test)
                         (kf_split lib (nrows X) y_bins)"
  have "\<forall>(k, st, r) \<in> set results.
          length (oof_preds st) = length y \<and> length (test_preds st) = nrows X_test"
    unfolding results_def using train_all_lengths by blast
  from ensemble_cell_total [OF this] obtain ens where
    ens: "ensemble_cell y results = Inr ens"
    and p0: "results = [] \<longrightarrow> ensemble_preds ens = Scalar (Fin 1)"
    and p1: "results \<noteq> [] \<longrightarrow> (\<exists>c. ensemble_preds ens = Array c \<and> length c = nrows X_test)"
    by blast
  have "nrows X_test = nrows test_df" by (simp add: X_test_def)
  with p0 p1 have "ensemble_preds ens = Scalar (Fin 1) \<or>
      (\<exists>c. ensemble_preds ens = Array c \<and> length c = nrows test_df)"
    by (cases "results = []") simp_all
  from submission_cell_total [OF dte idc wf this] obtain rows where
    rows: "submission_cell test_df (ensemble_preds ens) = Inr rows"
      "map fst rows = cells ids" "length rows = nrows test_df" by blast
  have "notebook lib train_df test_df = Inr rows"
    unfolding notebook_def df_drop_ignore and_then_Inr gy X_def [symmetric]
      X_test_def [symmetric] cols selection.case yv bins Let_def results_def [symmetric] ens
    using ex strata by (simp add: rows(1))
  with rows show ?thesis by blast
qed

subsection \<open>Runs with failing models\<close>

lemma example_drop_train:
  "df_drop example_train DROP_COLS Ignore =
   Inr \<lparr>nrows = 10, columns =
        [(''year'', \<lparr>dtype = dt_int, cells = replicate 10 (Some (Num 2020))\<rparr>)]\<rparr>"
  by (simp add: df_drop_ignore example_train_def DROP_COLS_def)

lemma example_drop_test:
  "df_drop example_test DROP_COLS Ignore =
   Inr \<lparr>nrows = 2, columns =
        [(''year'', \<lparr>dtype = dt_int, cells = [Some (Num 2021), Some (Num 2022)]\<rparr>)]\<rparr>"
  by (simp add: df_drop_ignore example_test_def DROP_COLS_def)

lemma example_target:
  "getitem example_train TARGET =
   Inr (Column \<lparr>dtype = dt_float, cells = replicate 10 (Some (Num (ln 3)))\<rparr>)"
  by (simp add: getitem_def example_train_def TARGET_def)

lemma example_float_values:
  "float_values \<lparr>dtype = dt_float, cells = replicate 10 (Some (Num (ln 3)))\<rparr> = Inr example_y"
  by (simp add: float_values_def example_y_def numeral_eq_Suc)

lemma example_detect:
  "detect_columns \<lparr>nrows = 10, columns =
        [(''year'', \<lparr>dtype = dt_int, cells = replicate 10 (Some (Num 2020))\<rparr>)]\<rparr>
   = Inr \<lparr>num_cols = [''year''], bool_cols = [], cat_low = [], cat_mid = [], cat_high = []\<rparr>"
  by (simp add: detect_columns_def col_dtype_def col_nunique_def getitem_def in_if_def)

lemma example_ids:
  "getitem example_test ''id'' =
   Inr (Column \<lparr>dtype = dt_int, cells = [Some (Num 100), Some (Num 101)]\<rparr>)"
  by (simp add: getitem_def example_test_def)

lemma example_notebook:
  "notebook (example_libs models) example_train example_test =
   and_then (ensemble_cell example_y (train_all models 10 example_y 2 (Inr example_folds)))
     (\<lambda>ens. submission_cell example_test (ensemble_preds ens))"
  by (simp add: notebook_def example_drop_train example_drop_test example_target
      example_detect example_float_values example_libs_def exp_defined_def)
     (simp add: example_y_def)

lemma train_broken:
  "train_all [(''XGB'', broken_model)] 10 example_y 2 (Inr example_folds) =
   [(''XGB'', \<lparr>oof_preds = replicate 10 0, test_preds = [0, 0]\<rparr>,
     Some (LibraryError ''out of memory''))]"
  by (simp add: train_all_def train_model_def example_folds_def upt10 broken_model_def
      steady_model_def train_fold_def example_y_def numeral_eq_Suc)

lemma smape_3_1: "smape_exp example_y (replicate 10 0) = Inr (Fin 100)"
  unfolding example_y_def
  by (subst smape_exp_example)
     (simp_all add: smape_eq spec_smape_def spec_term_def numeral_eq_Suc)

lemma ensemble_broken:
  "ensemble_cell example_y
     [(''XGB'', \<lparr>oof_preds = replicate 10 0, test_preds = [0, 0]\<rparr>,
       Some (LibraryError ''out of memory''))]
   = Inr \<lparr>errors = [(''XGB'', Fin 100)], inv_errors = [(''XGB'', Fin (1 / 100))],
          norm_weights = [(''XGB'', Fin 1)], ensemble_preds = Array [Fin 1, Fin 1]\<rparr>"
  by (simp add: ensemble_cell_def smape_3_1 inverse_errors_def normalize_weights_def
      py_sum_def dict_get_def Let_def)

text \<open>
  C2, the counterexample: the only model of the registry raises in its first fold, so no
  model completes training; the run still writes a submission, with the price 1 in every
  row.
\<close>

theorem all_models_failed_submission_written:
  "train_all [(''XGB'', broken_model)] 10 example_y 2 (Inr example_folds) =
     [(''XGB'', \<lparr>oof_preds = replicate 10 0, test_preds = [0, 0]\<rparr>,
       Some (LibraryError ''out of memory''))] \<and>
   notebook (example_libs [(''XGB'', broken_model)]) example_train example_test =
     Inr [(Some (Num 100), Fin 1), (Some (Num 101), Fin 1)]"
  by (simp add: example_notebook train_broken ensemble_broken submission_cell_def example_ids)

lemma cv_loop_append:
  "cv_loop pl n (fs1 @ fs2) st =
   (case cv_loop pl n fs1 st of
      (st1, None) \<Rightarrow> cv_loop pl n fs2 st1
    | (st1, Some e) \<Rightarrow> (st1, Some e))"
  by (induction fs1 arbitrary: st) (auto split: prod.splits option.splits)

lemma train_model_aborts:
  assumes "cv_loop pl n fs1 st = (st1, None)" "train_fold pl n f st1 = (st2, Some e)"
  shows "train_model pl n y (Inr (fs1 @ f # fs2)) st = (st2, Some e)"
  using assms by (simp add: train_model_def cv_loop_append)


lemma train_all_nth:
  "i < length pls \<Longrightarrow>
   train_all pls n y n_test split ! i =
     (fst (pls ! i),
      train_model (snd (pls ! i)) n y split
        \<lparr>oof_preds = replicate (length y) 0, test_preds = replicate n_test 0\<rparr>)"
  by (simp add: train_all_def split_def)

lemma ensemble_cell_errors:
  assumes "ensemble_cell y results = Inr ens"
  shows "list_all2 (\<lambda>(k, st, err) (k', v). k' = k \<and> smape_exp y (oof_preds st) = Inr v)
           results (errors ens)"
proof -
  from assms obtain errs terms b where
    e: "map_raising
          (\<lambda>(name, st, err).
             and_then (smape_exp y (oof_preds st)) (\<lambda>v. Inr (name, v)))
          results = Inr errs"
    and ens: "ens = \<lparr>errors = errs, inv_errors = inverse_errors errs,
                    norm_weights = normalize_weights (inverse_errors errs),
                    ensemble_preds = nd_map np_exp b\<rparr>"
    unfolding ensemble_cell_def Let_def and_then_eq_Inr by auto
  from map_raising_Inr [OF e]
  have "list_all2 (\<lambda>(k, st, err) (k', v). k' = k \<and> smape_exp y (oof_preds st) = Inr v)
          results errs"
    by (rule list_all2_mono) (auto simp: and_then_eq_Inr)
  with ens show ?thesis by simp
qed

lemma ensemble_of_run:
  fixes pls :: "(string \<times> 'f pipeline) list"
  shows "\<exists>ens. ensemble_cell y (train_all pls n y n_test split) = Inr ens \<and>
           map fst (errors ens) = map fst pls \<and> map fst (norm_weights ens) = map fst pls \<and>
           norm_weights ens = normalize_weights (inverse_errors (errors ens)) \<and>
           list_all2 (\<lambda>(k, st, err) (k', v). k' = k \<and> smape_exp y (oof_preds st) = Inr v)
             (train_all pls n y n_test split) (errors ens)"
proof -
  have "\<forall>(k, st, r) \<in> set (train_all pls n y n_test split).
          length (oof_preds st) = length y \<and> length (test_preds st) = n_test"
    using train_all_lengths by blast
  from ensemble_cell_total [OF this] obtain ens where
    cell: "ensemble_cell y (train_all pls n y n_test split) = Inr ens" by blast
  from ensemble_cell_Inr [OF cell] ensemble_cell_errors [OF cell] cell show ?thesis
    by (auto simp: train_all_names)
qed

text \<open>
  C1, as amended: when a model raises in a fold, its remaining folds are not run and its
  store stays as the failing fold left it. Every model of the registry, whether or not it
  follows a model that raised, is trained from its own store of zeros: its entry in the
  result of the training cell is its own training run. The ensemble cell completes; its
  error metrics and normalized weights have the names of all models of the registry, and
  the error metric of a model is computed from its out-of-fold store as the training left
  it, whether or not the model completed its folds.
\<close>

theorem failed_model_stays_in_ensemble:
  fixes pls :: "(string \<times> 'f pipeline) list" and pl :: "'f pipeline"
  shows "(cv_loop pl n fs1 st = (st1, None) \<and> train_fold pl n f st1 = (st2, Some e) \<longrightarrow>
            train_model pl n y (Inr (fs1 @ f # fs2)) st = (st2, Some e)) \<and>
         length (train_all pls n y n_test split) = length pls \<and>
         (\<forall>i < length pls.
            train_all pls n y n_test split ! i =
              (fst (pls ! i),
               train_model (snd (pls ! i)) n y split
                 \<lparr>oof_preds = replicate (length y) 0, test_preds = replicate n_test 0\<rparr>)) \<and>
         (\<exists>ens. ensemble_cell y (train_all pls n y n_test split) = Inr ens \<and>
            map fst (errors ens) = map fst pls \<and> map fst (norm_weights ens) = map fst pls \<and>
            norm_weights ens = normalize_weights (inverse_errors (errors ens)) \<and>
            list_all2 (\<lambda>(k, st, err) (k', v). k' = k \<and> smape_exp y (oof_preds st) = Inr v)
              (train_all pls n y n_test split) (errors ens))"
proof (intro conjI impI allI)
  assume "cv_loop pl n fs1 st = (st1, None) \<and> train_fold pl n f st1 = (st2, Some e)"
  then show "train_model pl n y (Inr (fs1 @ f # fs2)) st = (st2, Some e)"
    using train_model_aborts [of pl n fs1 st st1 f st2 e y fs2] by blast
next
  show "length (train_all pls n y n_test split) = length pls"
    by (simp add: train_all_def)
next
  fix i assume "i < length pls"
  then show "train_all pls n y n_test split ! i =
              (fst (pls ! i),
               train_model (snd (pls ! i)) n y split
                 \<lparr>oof_preds = replicate (length y) 0, test_preds = replicate n_test 0\<rparr>)"
    by (rule train_all_nth)
next
  show "\<exists>ens. ensemble_cell y (train_all pls n y n_test split) = Inr ens \<and>
            map fst (errors ens) = map fst pls \<and> map fst (norm_weights ens) = map fst pls \<and>
            norm_weights ens = normalize_weights (inverse_errors (errors ens)) \<and>
            list_all2 (\<lambda>(k, st, err) (k', v). k' = k \<and> smape_exp y (oof_preds st) = Inr v)
              (train_all pls n y n_test split) (errors ens)"
    by (rule ensemble_of_run)
qed

lemma train_failing:
  "train_model failing_model 10 example_y (Inr example_folds)
     \<lparr>oof_preds = replicate (length example_y) 0, test_preds = replicate 2 0\<rparr>
   = (\<lparr>oof_preds = [ln 2, 0, 0, 0, 0, 0, 0, 0, 0, 0], test_preds = [ln 2 / 10, ln 2 / 10]\<rparr>,
      Some (LibraryError ''out of memory''))"
  by (simp add: train_model_def example_folds_def upt10 failing_model_def steady_model_def
      train_fold_def setitem_def iadd_def N_SPLITS_def example_y_def numeral_eq_Suc)

lemma train_two:
  "train_all [(''A'', failing_model), (''B'', steady_model)] 10 example_y 2 (Inr example_folds) =
   [(''A'', \<lparr>oof_preds = [ln 2, 0, 0, 0, 0, 0, 0, 0, 0, 0],
             test_preds = [ln 2 / 10, ln 2 / 10]\<rparr>, Some (LibraryError ''out of memory'')),
    (''B'', \<lparr>oof_preds = replicate 10 (ln 2), test_preds = [ln 2, ln 2]\<rparr>, None)]"
  using train_steady train_failing by (simp add: train_all_def length_example_y)

lemma smape_3_2: "smape_exp example_y (replicate 10 (ln 2)) = Inr (Fin 40)"
  unfolding example_y_def
  by (subst smape_exp_example)
     (simp_all add: smape_eq spec_smape_def spec_term_def numeral_eq_Suc)

lemma smape_3_partial:
  "smape_exp example_y [ln 2, 0, 0, 0, 0, 0, 0, 0, 0, 0] = Inr (Fin 94)"
  unfolding example_y_def
  by (subst smape_exp_example)
     (simp_all add: smape_eq spec_smape_def spec_term_def numeral_eq_Suc)

lemma errors_two:
  "map_sum id errors
     (ensemble_cell example_y
        (train_all [(''A'', failing_model), (''B'', steady_model)] 10 example_y 2
           (Inr example_folds)))
     = Inr [(''A'', Fin 94), (''B'', Fin 40)]"
  by (simp add: train_two ensemble_cell_def smape_3_2 smape_3_partial inverse_errors_def
      normalize_weights_def py_sum_def dict_get_def np_binop_def Let_def)

lemma weights_two:
  "map_sum id norm_weights
     (ensemble_cell example_y
        (train_all [(''A'', failing_model), (''B'', steady_model)] 10 example_y 2
           (Inr example_folds)))
     = Inr [(''A'', Fin (20 / 67)), (''B'', Fin (47 / 67))]"
  by (simp add: train_two ensemble_cell_def smape_3_2 smape_3_partial inverse_errors_def
      normalize_weights_def py_sum_def dict_get_def np_binop_def Let_def)

text \<open>
  C1, the counterexample: of two models the first raises in its second fold and the second
  completes. The first keeps the error metric 94, computed from an out-of-fold store of
  which only the first entry was filled, and the weight 20/67 in the ensemble.
\<close>

theorem failed_model_is_weighted:
  "train_all [(''A'', failing_model), (''B'', steady_model)] 10 example_y 2 (Inr example_folds) =
     [(''A'', \<lparr>oof_preds = [ln 2, 0, 0, 0, 0, 0, 0, 0, 0, 0],
               test_preds = [ln 2 / 10, ln 2 / 10]\<rparr>, Some (LibraryError ''out of memory'')),
      (''B'', \<lparr>oof_preds = replicate 10 (ln 2), test_preds = [ln 2, ln 2]\<rparr>, None)] \<and>
   map_sum id errors
     (ensemble_cell example_y
        (train_all [(''A'', failing_model), (''B'', steady_model)] 10 example_y 2
           (Inr example_folds)))
     = Inr [(''A'', Fin 94), (''B'', Fin 40)] \<and>
   map_sum id norm_weights
     (ensemble_cell example_y
        (train_all [(''A'', failing_model), (''B'', steady_model)] 10 example_y 2
           (Inr example_folds)))
     = Inr [(''A'', Fin (20 / 67)), (''B'', Fin (47 / 67))]"
  using train_two errors_two weights_two by (intro conjI)

theorem failed_model_stays_in_ensemble_witness:
  "cv_loop failing_model 10 (take 1 example_folds)
     \<lparr>oof_preds = replicate 10 0, test_preds = [0, 0]\<rparr>
     = (\<lparr>oof_preds = [ln 2, 0, 0, 0, 0, 0, 0, 0, 0, 0],
         test_preds = [ln 2 / 10, ln 2 / 10]\<rparr>, None) \<and>
   train_fold failing_model 10 (example_folds ! 1)
     \<lparr>oof_preds = [ln 2, 0, 0, 0, 0, 0, 0, 0, 0, 0], test_preds = [ln 2 / 10, ln 2 / 10]\<rparr>
     = (\<lparr>oof_preds = [ln 2, 0, 0, 0, 0, 0, 0, 0, 0, 0],
         test_preds = [ln 2 / 10, ln 2 / 10]\<rparr>, Some (LibraryError ''out of memory'')) \<and>
   train_model failing_model 10 example_y
     (Inr (take 1 example_folds @ example_folds ! 1 # drop 2 example_folds))
     \<lparr>oof_preds = replicate 10 0, test_preds = [0, 0]\<rparr>
     = (\<lparr>oof_preds = [ln 2, 0, 0, 0, 0, 0, 0, 0, 0, 0],
         test_preds = [ln 2 / 10, ln 2 / 10]\<rparr>, Some (LibraryError ''out of memory'')) \<and>
   train_all [(''A'', failing_model), (''B'', steady_model)] 10 example_y 2
       (Inr example_folds) ! 0
     = (''A'', \<lparr>oof_preds = [ln 2, 0, 0, 0, 0, 0, 0, 0, 0, 0],
                test_preds = [ln 2 / 10, ln 2 / 10]\<rparr>, Some (LibraryError ''out of memory'')) \<and>
   train_all [(''A'', failing_model), (''B'', steady_model)] 10 example_y 2
       (Inr example_folds) ! 1
     = (''B'', \<lparr>oof_preds = replicate 10 (ln 2), test_preds = [ln 2, ln 2]\<rparr>, None) \<and>
   map_sum id (\<lambda>ens. (map fst (errors ens), map fst (norm_weights ens)))
     (ensemble_cell example_y
        (train_all [(''A'', failing_model), (''B'', steady_model)] 10 example_y 2
           (Inr example_folds)))
     = Inr ([''A'', ''B''], [''A'', ''B''])"
proof -
  have a: "cv_loop failing_model 10 (take 1 example_folds)
     \<lparr>oof_preds = replicate 10 0, test_preds = [0, 0]\<rparr>
     = (\<lparr>oof_preds = [ln 2, 0, 0, 0, 0, 0, 0, 0, 0, 0],
         test_preds = [ln 2 / 10, ln 2 / 10]\<rparr>, None)"
    by (simp add: example_folds_def upt10 failing_model_def steady_model_def
        train_fold_def setitem_def iadd_def N_SPLITS_def numeral_eq_Suc)
  have b: "train_fold failing_model 10 (example_folds ! 1)
     \<lparr>oof_preds = [ln 2, 0, 0, 0, 0, 0, 0, 0, 0, 0], test_preds = [ln 2 / 10, ln 2 / 10]\<rparr>
     = (\<lparr>oof_preds = [ln 2, 0, 0, 0, 0, 0, 0, 0, 0, 0],
         test_preds = [ln 2 / 10, ln 2 / 10]\<rparr>, Some (LibraryError ''out of memory''))"
    by (simp add: example_folds_def upt10 failing_model_def steady_model_def train_fold_def)
  note inst = failed_model_stays_in_ensemble
    [of failing_model 10 "take 1 example_folds"
        "\<lparr>oof_preds = replicate 10 0, test_preds = [0, 0]\<rparr>"
        "\<lparr>oof_preds = [ln 2, 0, 0, 0, 0, 0, 0, 0, 0, 0], test_preds = [ln 2 / 10, ln 2 / 10]\<rparr>"
        "example_folds ! 1"
        "\<lparr>oof_preds = [ln 2, 0, 0, 0, 0, 0, 0, 0, 0, 0], test_preds = [ln 2 / 10, ln 2 / 10]\<rparr>"
        "LibraryError ''out of memory''" example_y "drop 2 example_folds"
        "[(''A'', failing_model), (''B'', steady_model)]" 2 "Inr example_folds"]
  from inst a b
  have c: "train_model failing_model 10 example_y
     (Inr (take 1 example_folds @ example_folds ! 1 # drop 2 example_folds))
     \<lparr>oof_preds = replicate 10 0, test_preds = [0, 0]\<rparr>
     = (\<lparr>oof_preds = [ln 2, 0, 0, 0, 0, 0, 0, 0, 0, 0],
         test_preds = [ln 2 / 10, ln 2 / 10]\<rparr>, Some (LibraryError ''out of memory''))"
    by blast
  from inst
  have nth: "\<forall>i < length [(''A'', failing_model), (''B'', steady_model)].
      train_all [(''A'', failing_model), (''B'', steady_model)] 10 example_y 2
          (Inr example_folds) ! i =
        (fst ([(''A'', failing_model), (''B'', steady_model)] ! i),
         train_model (snd ([(''A'', failing_model), (''B'', steady_model)] ! i)) 10 example_y
           (Inr example_folds)
           \<lparr>oof_preds = replicate (length example_y) 0, test_preds = replicate 2 0\<rparr>)"
    by (elim conjE)
  from nth have "train_all [(''A'', failing_model), (''B'', steady_model)] 10 example_y 2
          (Inr example_folds) ! 0 =
        (''A'', train_model failing_model 10 example_y (Inr example_folds)
           \<lparr>oof_preds = replicate (length example_y) 0, test_preds = replicate 2 0\<rparr>)"
    by force
  with train_failing
  have d: "train_all [(''A'', failing_model), (''B'', steady_model)] 10 example_y 2
       (Inr example_folds) ! 0
     = (''A'', \<lparr>oof_preds = [ln 2, 0, 0, 0, 0, 0, 0, 0, 0, 0],
                test_preds = [ln 2 / 10, ln 2 / 10]\<rparr>, Some (LibraryError ''out of memory''))"
    by simp
  from nth have "train_all [(''A'', failing_model), (''B'', steady_model)] 10 example_y 2
          (Inr example_folds) ! 1 =
        (''B'', train_model steady_model 10 example_y (Inr example_folds)
           \<lparr>oof_preds = replicate (length example_y) 0, test_preds = replicate 2 0\<rparr>)"
    by force
  with train_steady
  have e: "train_all [(''A'', failing_model), (''B'', steady_model)] 10 example_y 2
       (Inr example_folds) ! 1
     = (''B'', \<lparr>oof_preds = replicate 10 (ln 2), test_preds = [ln 2, ln 2]\<rparr>, None)"
    by simp
  from inst
  have "\<exists>ens. ensemble_cell example_y
            (train_all [(''A'', failing_model), (''B'', steady_model)] 10 example_y 2
               (Inr example_folds)) = Inr ens \<and>
          map fst (errors ens) = map fst [(''A'', failing_model), (''B'', steady_model)] \<and>
          map fst (norm_weights ens) = map fst [(''A'', failing_model), (''B'', steady_model)] \<and>
          norm_weights ens = normalize_weights (inverse_errors (errors ens)) \<and>
          list_all2
            (\<lambda>(k, st, err) (k', v). k' = k \<and> smape_exp example_y (oof_preds st) = Inr v)
            (train_all [(''A'', failing_model), (''B'', steady_model)] 10 example_y 2
               (Inr example_folds)) (errors ens)"
    by (elim conjE)
  then obtain ens where
    "ensemble_cell example_y
            (train_all [(''A'', failing_model), (''B'', steady_model)] 10 example_y 2
               (Inr example_folds)) = Inr ens"
    "map fst (errors ens) = map fst [(''A'', failing_model), (''B'', steady_model)]"
    "map fst (norm_weights ens) = map fst [(''A'', failing_model), (''B'', steady_model)]"
    by (elim exE conjE)
  then have f: "map_sum id (\<lambda>ens. (map fst (errors ens), map fst (norm_weights ens)))
     (ensemble_cell example_y
        (train_all [(''A'', failing_model), (''B'', steady_model)] 10 example_y 2
           (Inr example_folds)))
     = Inr ([''A'', ''B''], [''A'', ''B''])"
    by simp
  from a b c d e f show ?thesis by (intro conjI)
qed

lemma wf_example_test: "wf_frame example_test"
  by (simp add: wf_frame_def example_test_def)

theorem notebook_writes_submission_witness:
  "distinct (map fst (columns example_train)) \<and>
   distinct (map fst (columns example_test)) \<and>
   wf_frame example_test \<and>
   (TARGET, \<lparr>dtype = dt_float, cells = replicate 10 (Some (Num (ln 3)))\<rparr>)
     \<in> set (columns example_train) \<and>
   float_values \<lparr>dtype = dt_float, cells = replicate 10 (Some (Num (ln 3)))\<rparr> = Inr example_y \<and>
   exp_defined (dtype \<lparr>dtype = dt_float, cells = replicate 10 (Some (Num (ln 3)))\<rparr>) \<and>
   discretize (example_libs [(''XGB'', broken_model)]) example_y
     = Inr (map (\<lambda>v. 0) example_y) \<and>
   map (\<lambda>v. 0 :: nat) example_y \<noteq> [] \<and>
   (''id'', \<lparr>dtype = dt_int, cells = [Some (Num 100), Some (Num 101)]\<rparr>)
     \<in> set (columns example_test) \<and>
   (\<exists>rows. notebook (example_libs [(''XGB'', broken_model)]) example_train example_test
            = Inr rows \<and>
          map fst rows = [Some (Num 100), Some (Num 101)] \<and> length rows = 2)"
proof -
  have 1: "distinct (map fst (columns example_train))" by (simp add: example_train_def)
  have 2: "distinct (map fst (columns example_test))" by (simp add: example_test_def)
  have 4: "(TARGET, \<lparr>dtype = dt_float, cells = replicate 10 (Some (Num (ln 3)))\<rparr>)
     \<in> set (columns example_train)" by (simp add: example_train_def TARGET_def)
  have 5: "exp_defined (dtype \<lparr>dtype = dt_float, cells = replicate 10 (Some (Num (ln 3)))\<rparr>)"
    by (simp add: exp_defined_def)
  have 6: "discretize (example_libs [(''XGB'', broken_model)]) example_y
     = Inr (map (\<lambda>v. 0) example_y)" by (simp add: example_libs_def)
  have 7: "(''id'', \<lparr>dtype = dt_int, cells = [Some (Num 100), Some (Num 101)]\<rparr>)
     \<in> set (columns example_test)" by (simp add: example_test_def)
  have 8: "map (\<lambda>v. 0 :: nat) example_y \<noteq> []" by (simp add: example_y_def)
  from notebook_writes_submission [OF 1 2 wf_example_test 4 example_float_values 5 6 8 7]
  have "\<exists>rows. notebook (example_libs [(''XGB'', broken_model)]) example_train example_test
            = Inr rows \<and>
          map fst rows = [Some (Num 100), Some (Num 101)] \<and> length rows = 2"
    by (simp add: example_test_def)
  with 1 2 wf_example_test 4 example_float_values 5 6 8 7 show ?thesis by (intro conjI)
qed

subsection \<open>The sign of the predictions\<close>

lemma clip_exp: "clip_min0 (np_exp v) = np_exp v"
  by (cases v) (simp_all add: np_exp.simps max_def)

lemma nd_clip_exp: "nd_map clip_min0 (nd_map np_exp b) = nd_map np_exp b"
  by (cases b) (simp_all add: clip_exp)

lemma nd_values_map: "nd_values (nd_map f b) = map f (nd_values b)"
  by (cases b) simp_all

lemma hd_in_set_single: "length xs = Suc 0 \<Longrightarrow> hd xs \<in> set xs"
  by (cases xs) simp_all

lemma np_add_fin: "\<exists>x. a = Fin x \<Longrightarrow> \<exists>x. b = Fin x \<Longrightarrow> \<exists>x. np_add a b = Fin x"
  by auto

lemma np_binop_add_fin:
  assumes as: "\<forall>v \<in> set as. \<exists>x. v = Fin x" and bs: "\<forall>v \<in> set bs. \<exists>x. v = Fin x"
    and cs: "np_binop np_add as bs = Inr cs"
  shows "\<forall>v \<in> set cs. \<exists>x. v = Fin x"
proof -
  consider (eq) "cs = map2 np_add as bs"
    | (left) "length as = Suc 0" "cs = map (np_add (hd as)) bs"
    | (right) "length bs = Suc 0" "cs = map (\<lambda>x. np_add x (hd bs)) as"
    using cs by (auto simp: np_binop_def split: if_splits)
  then show ?thesis
  proof cases
    case eq
    show ?thesis
    proof
      fix v assume "v \<in> set cs"
      with eq obtain a b where "(a, b) \<in> set (zip as bs)" "v = np_add a b" by auto
      then have "a \<in> set as" "b \<in> set bs" "v = np_add a b"
        by (auto elim: in_set_zipE)
      with as bs show "\<exists>x. v = Fin x" by (simp add: np_add_fin)
    qed
  next
    case left
    then have "hd as \<in> set as" by (simp add: hd_in_set_single)
    with as have h: "\<exists>x. hd as = Fin x" by simp
    show ?thesis
    proof
      fix v assume "v \<in> set cs"
      with left obtain b where "b \<in> set bs" "v = np_add (hd as) b" by auto
      with bs h show "\<exists>x. v = Fin x" by (simp add: np_add_fin)
    qed
  next
    case right
    then have "hd bs \<in> set bs" by (simp add: hd_in_set_single)
    with bs have h: "\<exists>x. hd bs = Fin x" by simp
    show ?thesis
    proof
      fix v assume "v \<in> set cs"
      with right obtain a where "a \<in> set as" "v = np_add a (hd bs)" by auto
      with as h show "\<exists>x. v = Fin x" by (simp add: np_add_fin)
    qed
  qed
qed

lemma nd_add_fin:
  assumes "\<forall>v \<in> set (nd_values a). \<exists>x. v = Fin x" "\<forall>v \<in> set (nd_values b). \<exists>x. v = Fin x"
    and "nd_add a b = Inr c"
  shows "\<forall>v \<in> set (nd_values c). \<exists>x. v = Fin x"
proof (cases a)
  case (Scalar s)
  with assms(1) obtain x where s: "s = Fin x" by auto
  show ?thesis
  proof (cases b)
    case (Scalar t)
    with assms(2) obtain z where "t = Fin z" by auto
    with assms(3) s Scalar \<open>a = Scalar s\<close> show ?thesis by auto
  next
    case (Array bs)
    with assms(2,3) s \<open>a = Scalar s\<close> show ?thesis by fastforce
  qed
next
  case (Array as)
  show ?thesis
  proof (cases b)
    case (Scalar t)
    with assms(2) obtain z where "t = Fin z" by auto
    with assms(1,3) Scalar Array show ?thesis by fastforce
  next
    case bs: (Array bs)
    with assms(3) Array obtain cs where cs: "np_binop np_add as bs = Inr cs" and c: "c = Array cs"
      by (auto split: sum.splits)
    from assms(1,2) Array bs np_binop_add_fin [OF _ _ cs] c show ?thesis by simp
  qed
qed

lemma nd_sum_fin:
  "\<forall>v \<in> set (nd_values acc). \<exists>x. v = Fin x \<Longrightarrow>
   \<forall>t \<in> set ts. \<forall>v \<in> set (nd_values t). \<exists>x. v = Fin x \<Longrightarrow>
   nd_sum acc ts = Inr r \<Longrightarrow> \<forall>v \<in> set (nd_values r). \<exists>x. v = Fin x"
proof (induction ts arbitrary: acc)
  case Nil
  then show ?case by simp
next
  case (Cons t ts)
  from Cons.prems(3) obtain acc' where a: "nd_add acc t = Inr acc'"
    and rest: "nd_sum acc' ts = Inr r"
    by (auto simp: and_then_eq_Inr)
  from Cons.prems(2) have t: "\<forall>v \<in> set (nd_values t). \<exists>x. v = Fin x" by simp
  from nd_add_fin [OF Cons.prems(1) t a]
  have "\<forall>v \<in> set (nd_values acc'). \<exists>x. v = Fin x" .
  moreover from Cons.prems(2)
  have "\<forall>t \<in> set ts. \<forall>v \<in> set (nd_values t). \<exists>x. v = Fin x" by simp
  ultimately show ?case using rest by (rule Cons.IH)
qed

lemma positive_errors_repr:
  "\<forall>(k, e) \<in> set errs. \<exists>x > 0. e = Fin x \<Longrightarrow>
   \<exists>es. errs = map (\<lambda>(k, x). (k, Fin x)) es \<and> (\<forall>(k, x) \<in> set es. 0 < x)"
proof (induction errs)
  case Nil
  then show ?case by simp
next
  case (Cons p errs)
  obtain k e where p: "p = (k, e)" by (cases p)
  with Cons.prems obtain x where x: "0 < x" "e = Fin x" by auto
  from Cons obtain es where es: "errs = map (\<lambda>(k, x). (k, Fin x)) es"
    "\<forall>(k, x) \<in> set es. 0 < x" by auto
  from p x es have "p # errs = map (\<lambda>(k, x). (k, Fin x)) ((k, x) # es) \<and>
    (\<forall>(k, x) \<in> set ((k, x) # es). 0 < x)" by simp
  then show ?case by (rule exI)
qed

lemma positive_errors_weights:
  assumes "\<forall>(k, e) \<in> set errs. \<exists>x > 0. e = Fin x"
  shows "\<forall>(k, wk) \<in> set (normalize_weights (inverse_errors errs)). \<exists>x. wk = Fin x"
proof -
  from positive_errors_repr [OF assms] obtain es where
    es: "errs = map (\<lambda>(k, x). (k, Fin x)) es" and pos: "\<forall>(k, x) \<in> set es. 0 < x" by blast
  show ?thesis
  proof (cases "es = []")
    case True
    with es show ?thesis by (simp add: normalize_weights_def inverse_errors_def)
  next
    case False
    from pos have "inverse_errors errs = map (\<lambda>(k, x). (k, Fin (1 / x))) es"
      unfolding es by (rule inverse_errors_Fin)
    with normalize_Fin [OF False pos] show ?thesis by auto
  qed
qed

lemma dict_get_in: "dict_get d k = Inr v \<Longrightarrow> (k, v) \<in> set d"
  by (auto simp: dict_get_def split: option.splits dest: map_of_SomeD)

lemma list_all2_in_right:
  "list_all2 P xs ys \<Longrightarrow> y \<in> set ys \<Longrightarrow> \<exists>x \<in> set xs. P x y"
  by (induction rule: list_all2_induct) auto

lemma ensemble_cell_parts:
  assumes "ensemble_cell y results = Inr ens"
  shows "\<exists>terms b.
           map_raising
             (\<lambda>(k, st, err).
                and_then (dict_get (normalize_weights (inverse_errors (errors ens))) k)
                  (\<lambda>wk. Inr (Array (map (\<lambda>x. np_mul (Fin x) wk) (test_preds st)))))
             results = Inr terms \<and>
           nd_sum (Scalar (Fin 0)) terms = Inr b \<and>
           ensemble_preds ens = nd_map np_exp b"
  using assms unfolding ensemble_cell_def Let_def and_then_eq_Inr by auto

lemma positive_errors_finite_blend:
  assumes cell: "ensemble_cell y results = Inr ens"
    and pos: "\<forall>(k, e) \<in> set (errors ens). \<exists>x > 0. e = Fin x"
  shows "\<exists>terms b.
           map_raising
             (\<lambda>(k, st, err).
                and_then (dict_get (norm_weights ens) k)
                  (\<lambda>wk. Inr (Array (map (\<lambda>x. np_mul (Fin x) wk) (test_preds st)))))
             results = Inr terms \<and>
           nd_sum (Scalar (Fin 0)) terms = Inr b \<and>
           ensemble_preds ens = nd_map np_exp b \<and>
           (\<forall>v \<in> set (nd_values b). \<exists>x. v = Fin x)"
proof -
  define w where "w = normalize_weights (inverse_errors (errors ens))"
  from ensemble_cell_parts [OF cell] obtain terms b where
    t: "map_raising
             (\<lambda>(k, st, err).
                and_then (dict_get w k)
                  (\<lambda>wk. Inr (Array (map (\<lambda>x. np_mul (Fin x) wk) (test_preds st)))))
             results = Inr terms"
    and s: "nd_sum (Scalar (Fin 0)) terms = Inr b"
    and p: "ensemble_preds ens = nd_map np_exp b"
    unfolding w_def by blast
  from positive_errors_weights [OF pos]
  have wfin: "\<forall>(k, wk) \<in> set w. \<exists>x. wk = Fin x" by (simp add: w_def)
  have tfin: "\<forall>t \<in> set terms. \<forall>v \<in> set (nd_values t). \<exists>x. v = Fin x"
  proof
    fix t assume "t \<in> set terms"
    with list_all2_in_right [OF map_raising_Inr [OF t]] obtain r where
      "r \<in> set results"
      and r: "(case r of (k, st, err) \<Rightarrow>
                and_then (dict_get w k)
                  (\<lambda>wk. Inr (Array (map (\<lambda>x. np_mul (Fin x) wk) (test_preds st))))) = Inr t"
      by blast
    obtain k st err where "r = (k, st, err)" by (cases r)
    with r obtain wk where g: "dict_get w k = Inr wk"
      and tt: "t = Array (map (\<lambda>x. np_mul (Fin x) wk) (test_preds st))"
      by (auto simp: and_then_eq_Inr)
    from dict_get_in [OF g] wfin obtain z where "wk = Fin z" by auto
    with tt show "\<forall>v \<in> set (nd_values t). \<exists>x. v = Fin x" by auto
  qed
  have "\<forall>v \<in> set (nd_values (Scalar (Fin 0))). \<exists>x. v = Fin x" by simp
  from nd_sum_fin [OF this tfin s]
  have "\<forall>v \<in> set (nd_values b). \<exists>x. v = Fin x" .
  moreover from ensemble_cell_Inr [OF cell] have "norm_weights ens = w"
    by (simp add: w_def)
  ultimately show ?thesis using t s p by blast
qed

lemma submission_values:
  assumes "submission_cell test_df preds = Inr rows"
  shows "snd ` set rows \<subseteq> set (nd_values (nd_map clip_min0 preds))"
proof -
  from assms obtain sel where
    r: "(case sel of
           SubFrame ss \<Rightarrow> Inl ValueError
         | Column ids \<Rightarrow>
             (case nd_map clip_min0 preds of
                Scalar v \<Rightarrow> Inr (map (\<lambda>i. (i, v)) (cells ids))
              | Array vs \<Rightarrow>
                  if length vs = length (cells ids) then Inr (zip (cells ids) vs)
                  else Inl ValueError)) = Inr rows"
    unfolding submission_cell_def Let_def and_then_eq_Inr by blast
  then obtain ids where sel: "sel = Column ids" by (cases sel) simp_all
  show ?thesis
  proof (cases "nd_map clip_min0 preds")
    case (Scalar v)
    with r sel have "rows = map (\<lambda>i. (i, v)) (cells ids)" by simp
    with Scalar show ?thesis by auto
  next
    case (Array vs)
    with r sel have "rows = zip (cells ids) vs" by (simp split: if_splits)
    with Array show ?thesis by (auto dest: set_zip_rightD)
  qed
qed

lemma inverse_not_NInf: "np_div (Fin 1) e \<noteq> NInf"
  by (cases e) (simp_all add: inf_of_sign_def)

lemma inverse_of_zero: "e = Fin 0 \<or> e = NaN \<Longrightarrow> np_div (Fin 1) e = PInf \<or> np_div (Fin 1) e = NaN"
  by (auto simp: inf_of_sign_def)

lemma np_add_not_NInf: "a \<noteq> NInf \<Longrightarrow> b \<noteq> NInf \<Longrightarrow> np_add a b \<noteq> NInf"
  by (cases a; cases b) simp_all

lemma np_add_high:
  "a \<noteq> NInf \<Longrightarrow> b \<noteq> NInf \<Longrightarrow> a = PInf \<or> a = NaN \<or> b = PInf \<or> b = NaN \<Longrightarrow>
   np_add a b = PInf \<or> np_add a b = NaN"
  by (cases a; cases b) simp_all

lemma foldl_np_add_high:
  "\<forall>v \<in> set vs. v \<noteq> NInf \<Longrightarrow> acc \<noteq> NInf \<Longrightarrow>
   acc = PInf \<or> acc = NaN \<or> (\<exists>v \<in> set vs. v = PInf \<or> v = NaN) \<Longrightarrow>
   foldl np_add acc vs = PInf \<or> foldl np_add acc vs = NaN"
proof (induction vs arbitrary: acc)
  case Nil
  then show ?case by simp
next
  case (Cons v vs)
  from Cons.prems have v: "v \<noteq> NInf" and rest: "\<forall>v \<in> set vs. v \<noteq> NInf" by simp_all
  from Cons.prems(2) v have n: "np_add acc v \<noteq> NInf" by (rule np_add_not_NInf)
  show ?case
  proof (cases "acc = PInf \<or> acc = NaN \<or> v = PInf \<or> v = NaN")
    case True
    with Cons.prems(2) v have "np_add acc v = PInf \<or> np_add acc v = NaN"
      by (intro np_add_high)
    with Cons.IH [OF rest n] show ?thesis by auto
  next
    case False
    with Cons.prems(3) have "\<exists>v \<in> set vs. v = PInf \<or> v = NaN" by auto
    with Cons.IH [OF rest n] show ?thesis by auto
  qed
qed

lemma np_div_high: "a = PInf \<or> a = NaN \<Longrightarrow> t = PInf \<or> t = NaN \<Longrightarrow> np_div a t = NaN"
  by auto

lemma zero_error_weight:
  assumes d: "distinct (map fst errs)" and k: "(k, e) \<in> set errs" and e: "e = Fin 0 \<or> e = NaN"
  shows "map_of (normalize_weights (inverse_errors errs)) k = Some NaN"
proof -
  define total where "total = py_sum (map snd (inverse_errors errs))"
  have "\<forall>v \<in> set (map snd (inverse_errors errs)). v \<noteq> NInf"
    by (auto simp: inverse_errors_def inverse_not_NInf)
  moreover from k have "np_div (Fin 1) e \<in> set (map snd (inverse_errors errs))"
    by (force simp: inverse_errors_def)
  with inverse_of_zero [OF e]
  have "\<exists>v \<in> set (map snd (inverse_errors errs)). v = PInf \<or> v = NaN" by blast
  ultimately have t: "total = PInf \<or> total = NaN"
    unfolding total_def py_sum_def by (intro foldl_np_add_high) simp_all
  from d k have "map_of errs k = Some e" by (rule map_of_is_SomeI)
  then have "map_of (inverse_errors errs) k = Some (np_div (Fin 1) e)"
    unfolding inverse_errors_def map_of_map by simp
  then have "map_of (normalize_weights (inverse_errors errs)) k
      = Some (np_div (np_div (Fin 1) e) total)"
    unfolding normalize_weights_def map_of_map total_def by simp
  with np_div_high [OF inverse_of_zero [OF e] t] show ?thesis by simp
qed

lemma np_add_NaN: "np_add a NaN = NaN" "np_add NaN a = NaN"
  by (cases a; simp)+

lemma np_binop_add_nan:
  assumes cs: "np_binop np_add as bs = Inr cs"
    and n: "(\<forall>v \<in> set as. v = NaN) \<or> (\<forall>v \<in> set bs. v = NaN)"
  shows "\<forall>v \<in> set cs. v = NaN"
proof -
  consider (eq) "cs = map2 np_add as bs"
    | (left) "length as = Suc 0" "cs = map (np_add (hd as)) bs"
    | (right) "length bs = Suc 0" "cs = map (\<lambda>x. np_add x (hd bs)) as"
    using cs by (auto simp: np_binop_def split: if_splits)
  then show ?thesis
  proof cases
    case eq
    show ?thesis
    proof
      fix v assume "v \<in> set cs"
      with eq obtain a b where "(a, b) \<in> set (zip as bs)" "v = np_add a b" by auto
      then have "a \<in> set as" "b \<in> set bs" "v = np_add a b"
        by (auto elim: in_set_zipE)
      with n show "v = NaN" by (auto simp: np_add_NaN)
    qed
  next
    case left
    then have h: "hd as \<in> set as" by (simp add: hd_in_set_single)
    show ?thesis
    proof
      fix v assume "v \<in> set cs"
      with left obtain b where "b \<in> set bs" "v = np_add (hd as) b" by auto
      with n h show "v = NaN" by (auto simp: np_add_NaN)
    qed
  next
    case right
    then have h: "hd bs \<in> set bs" by (simp add: hd_in_set_single)
    show ?thesis
    proof
      fix v assume "v \<in> set cs"
      with right obtain a where "a \<in> set as" "v = np_add a (hd bs)" by auto
      with n h show "v = NaN" by (auto simp: np_add_NaN)
    qed
  qed
qed

lemma nd_add_nan:
  assumes "nd_add a b = Inr c"
    and "(\<forall>v \<in> set (nd_values a). v = NaN) \<or> (\<forall>v \<in> set (nd_values b). v = NaN)"
  shows "\<forall>v \<in> set (nd_values c). v = NaN"
proof (cases a)
  case sa: (Scalar s)
  show ?thesis
  proof (cases b)
    case (Scalar t)
    with assms sa show ?thesis by (auto simp: np_add_NaN)
  next
    case (Array bs)
    with assms sa have c: "c = Array (map (np_add s) bs)"
      and n: "s = NaN \<or> (\<forall>v \<in> set bs. v = NaN)" by auto
    from n have "\<forall>v \<in> set bs. np_add s v = NaN" by (auto simp: np_add_NaN)
    with c show ?thesis by simp
  qed
next
  case aa: (Array as)
  show ?thesis
  proof (cases b)
    case (Scalar t)
    with assms aa have c: "c = Array (map (\<lambda>a. np_add a t) as)"
      and n: "(\<forall>v \<in> set as. v = NaN) \<or> t = NaN" by auto
    from n have "\<forall>v \<in> set as. np_add v t = NaN" by (auto simp: np_add_NaN)
    with c show ?thesis by simp
  next
    case (Array bs)
    with assms(1) aa obtain cs where cs: "np_binop np_add as bs = Inr cs" and c: "c = Array cs"
      by (auto split: sum.splits)
    from assms(2) aa Array have "(\<forall>v \<in> set as. v = NaN) \<or> (\<forall>v \<in> set bs. v = NaN)" by simp
    from np_binop_add_nan [OF cs this] c show ?thesis by simp
  qed
qed

lemma nd_sum_nan:
  "nd_sum acc ts = Inr r \<Longrightarrow>
   (\<forall>v \<in> set (nd_values acc). v = NaN) \<or> (\<exists>t \<in> set ts. \<forall>v \<in> set (nd_values t). v = NaN) \<Longrightarrow>
   \<forall>v \<in> set (nd_values r). v = NaN"
proof (induction ts arbitrary: acc)
  case Nil
  then show ?case by simp
next
  case (Cons t ts)
  from Cons.prems(1) obtain acc' where a: "nd_add acc t = Inr acc'"
    and rest: "nd_sum acc' ts = Inr r"
    by (auto simp: and_then_eq_Inr)
  show ?case
  proof (cases "(\<forall>v \<in> set (nd_values acc). v = NaN) \<or> (\<forall>v \<in> set (nd_values t). v = NaN)")
    case True
    from nd_add_nan [OF a True] have "\<forall>v \<in> set (nd_values acc'). v = NaN" .
    with Cons.IH [OF rest] show ?thesis by blast
  next
    case False
    with Cons.prems(2) have "\<exists>t \<in> set ts. \<forall>v \<in> set (nd_values t). v = NaN" by auto
    with Cons.IH [OF rest] show ?thesis by blast
  qed
qed

lemma list_all2_in_left:
  "list_all2 P xs ys \<Longrightarrow> x \<in> set xs \<Longrightarrow> \<exists>y \<in> set ys. P x y"
  by (induction rule: list_all2_induct) auto

lemma zero_error_nan_blend:
  assumes cell: "ensemble_cell y results = Inr ens"
    and d: "distinct (map fst results)"
    and k: "(k, e) \<in> set (errors ens)" and e: "e = Fin 0 \<or> e = NaN"
  shows "\<forall>v \<in> set (nd_values (ensemble_preds ens)). v = NaN"
proof -
  define w where "w = normalize_weights (inverse_errors (errors ens))"
  from ensemble_cell_parts [OF cell] obtain terms b where
    t: "map_raising
             (\<lambda>(k, st, err).
                and_then (dict_get w k)
                  (\<lambda>wk. Inr (Array (map (\<lambda>x. np_mul (Fin x) wk) (test_preds st)))))
             results = Inr terms"
    and s: "nd_sum (Scalar (Fin 0)) terms = Inr b"
    and p: "ensemble_preds ens = nd_map np_exp b"
    unfolding w_def by blast
  from ensemble_cell_Inr [OF cell] have names: "map fst (errors ens) = map fst results"
    by simp
  with d have "distinct (map fst (errors ens))" by simp
  from zero_error_weight [OF this k e] have wk: "dict_get w k = Inr NaN"
    by (simp add: dict_get_def w_def)
  from k have "k \<in> set (map fst (errors ens))" by force
  with names obtain st r where res: "(k, st, r) \<in> set results" by auto
  from list_all2_in_left [OF map_raising_Inr [OF t] res] wk
  have "Array (map (\<lambda>x. np_mul (Fin x) NaN) (test_preds st)) \<in> set terms" by simp
  moreover have "\<forall>v \<in> set (nd_values (Array (map (\<lambda>x. np_mul (Fin x) NaN) (test_preds st)))).
                   v = NaN" by simp
  ultimately have "\<exists>t \<in> set terms. \<forall>v \<in> set (nd_values t). v = NaN" by blast
  with nd_sum_nan [OF s] have "\<forall>v \<in> set (nd_values b). v = NaN" by blast
  then have "\<forall>v \<in> set (nd_values b). np_exp v = NaN" by auto
  then show ?thesis unfolding p nd_values_map by simp
qed

text \<open>
  C10, as amended: the final predictions are exponentials, so none of them is negative and
  the clip at 0 never changes a value; the values written to the submission are among the
  final predictions. When the error metric of every model is positive, the blend, the sum
  of the test predictions of the models multiplied by their weights, has finite values, and
  every final prediction is \<^verbatim>\<open>np.exp\<close> of such a value \<open>x\<close>: a positive finite number
  when \<open>x\<close> is within the range of the exponential, \<open>0.0\<close> when the exponential
  underflows, \<open>inf\<close> when it overflows. When the names of the models are distinct and
  the error metric of some model is 0 or \<open>nan\<close>, every final prediction is \<open>nan\<close>.
\<close>

theorem clip_keeps_predictions:
  assumes cell: "ensemble_cell y results = Inr ens"
  shows "nd_map clip_min0 (ensemble_preds ens) = ensemble_preds ens \<and>
         (\<forall>v \<in> set (nd_values (ensemble_preds ens)).
            v = NaN \<or> v = PInf \<or> (\<exists>x \<ge> 0. v = Fin x)) \<and>
         (\<forall>rows. submission_cell test_df (ensemble_preds ens) = Inr rows \<longrightarrow>
            snd ` set rows \<subseteq> set (nd_values (ensemble_preds ens))) \<and>
         ((\<forall>(k, e) \<in> set (errors ens). \<exists>x > 0. e = Fin x) \<longrightarrow>
            (\<exists>terms b.
               map_raising
                 (\<lambda>(k, st, err).
                    and_then (dict_get (norm_weights ens) k)
                      (\<lambda>wk. Inr (Array (map (\<lambda>x. np_mul (Fin x) wk) (test_preds st)))))
                 results = Inr terms \<and>
               nd_sum (Scalar (Fin 0)) terms = Inr b \<and>
               ensemble_preds ens = nd_map np_exp b \<and>
               (\<forall>v \<in> set (nd_values b). \<exists>x. v = Fin x)) \<and>
            (\<forall>v \<in> set (nd_values (ensemble_preds ens)). \<exists>x. v = np_exp (Fin x))) \<and>
         (\<forall>x. ((\<exists>z > 0. np_exp (Fin x) = Fin z) \<longleftrightarrow> exp_underflow < x \<and> x < exp_overflow) \<and>
              (np_exp (Fin x) = Fin 0 \<longleftrightarrow> x \<le> exp_underflow) \<and>
              (np_exp (Fin x) = PInf \<longleftrightarrow> exp_overflow \<le> x)) \<and>
         (distinct (map fst results) \<and>
          (\<exists>k e. (k, e) \<in> set (errors ens) \<and> (e = Fin 0 \<or> e = NaN)) \<longrightarrow>
            (\<forall>v \<in> set (nd_values (ensemble_preds ens)). v = NaN))"
proof (intro conjI impI allI)
  from ensemble_cell_parts [OF cell] obtain b where b: "ensemble_preds ens = nd_map np_exp b"
    by blast
  then show clip: "nd_map clip_min0 (ensemble_preds ens) = ensemble_preds ens"
    by (simp add: nd_clip_exp)
  show "\<forall>v \<in> set (nd_values (ensemble_preds ens)).
          v = NaN \<or> v = PInf \<or> (\<exists>x \<ge> 0. v = Fin x)"
    unfolding b nd_values_map using np_exp_sign by auto
  {
    fix rows
    assume rows: "submission_cell test_df (ensemble_preds ens) = Inr rows"
    from submission_values [OF rows] clip
    show "snd ` set rows \<subseteq> set (nd_values (ensemble_preds ens))" by simp
  }
  {
    assume errs: "\<forall>(k, e) \<in> set (errors ens). \<exists>x > 0. e = Fin x"
    from positive_errors_finite_blend [OF cell errs]
    show "\<exists>terms b.
               map_raising
                 (\<lambda>(k, st, err).
                    and_then (dict_get (norm_weights ens) k)
                      (\<lambda>wk. Inr (Array (map (\<lambda>x. np_mul (Fin x) wk) (test_preds st)))))
                 results = Inr terms \<and>
               nd_sum (Scalar (Fin 0)) terms = Inr b \<and>
               ensemble_preds ens = nd_map np_exp b \<and>
               (\<forall>v \<in> set (nd_values b). \<exists>x. v = Fin x)" .
    then obtain c where
      c: "ensemble_preds ens = nd_map np_exp c" and fin: "\<forall>v \<in> set (nd_values c). \<exists>x. v = Fin x"
      by blast
    show "\<forall>v \<in> set (nd_values (ensemble_preds ens)). \<exists>x. v = np_exp (Fin x)"
      unfolding c nd_values_map using fin by auto
  }
  {
    fix x
    from np_exp_cases [of x]
    show "(\<exists>z > 0. np_exp (Fin x) = Fin z) \<longleftrightarrow> exp_underflow < x \<and> x < exp_overflow"
      and "np_exp (Fin x) = Fin 0 \<longleftrightarrow> x \<le> exp_underflow"
      and "np_exp (Fin x) = PInf \<longleftrightarrow> exp_overflow \<le> x"
      by blast+
  }
  {
    assume z: "distinct (map fst results) \<and>
          (\<exists>k e. (k, e) \<in> set (errors ens) \<and> (e = Fin 0 \<or> e = NaN))"
    then obtain k e where d: "distinct (map fst results)"
      and k: "(k, e) \<in> set (errors ens)" and e: "e = Fin 0 \<or> e = NaN" by blast
    from zero_error_nan_blend [OF cell d k e]
    show "\<forall>v \<in> set (nd_values (ensemble_preds ens)). v = NaN" .
  }
qed

lemma train_exact:
  "train_all [(''XGB'', exact_model)] 10 example_y 2 (Inr example_folds) =
   [(''XGB'', \<lparr>oof_preds = replicate 10 (ln 3), test_preds = [ln 3, ln 3]\<rparr>, None)]"
  by (simp add: train_all_def train_model_def example_folds_def upt10 exact_model_def
      train_fold_def setitem_def iadd_def N_SPLITS_def example_y_def smape_exp_case
      numeral_eq_Suc)

lemma smape_3_3: "smape_exp example_y (replicate 10 (ln 3)) = Inr (Fin 0)"
  unfolding example_y_def
  by (subst smape_exp_example)
     (simp_all add: smape_eq spec_smape_def spec_term_def numeral_eq_Suc)

lemma ensemble_exact:
  "ensemble_cell example_y
     [(''XGB'', \<lparr>oof_preds = replicate 10 (ln 3), test_preds = [ln 3, ln 3]\<rparr>, None)]
   = Inr \<lparr>errors = [(''XGB'', Fin 0)], inv_errors = [(''XGB'', PInf)],
          norm_weights = [(''XGB'', NaN)], ensemble_preds = Array [NaN, NaN]\<rparr>"
  by (simp add: ensemble_cell_def smape_3_3 inverse_errors_def normalize_weights_def
      py_sum_def dict_get_def inf_of_sign_def Let_def)

lemma train_low:
  "train_all [(''XGB'', low_model)] 10 example_y 2 (Inr example_folds) =
   [(''XGB'', \<lparr>oof_preds = replicate 10 (ln 2), test_preds = [- 800, - 800]\<rparr>, None)]"
  by (simp add: train_all_def train_model_def example_folds_def upt10 low_model_def
      train_fold_def setitem_def iadd_def N_SPLITS_def example_y_def smape_exp_case
      numeral_eq_Suc)

lemma ensemble_low:
  "ensemble_cell example_y
     [(''XGB'', \<lparr>oof_preds = replicate 10 (ln 2), test_preds = [- 800, - 800]\<rparr>, None)]
   = Inr \<lparr>errors = [(''XGB'', Fin 40)], inv_errors = [(''XGB'', Fin (1 / 40))],
          norm_weights = [(''XGB'', Fin 1)], ensemble_preds = Array [Fin 0, Fin 0]\<rparr>"
  by (simp add: ensemble_cell_def smape_3_2 inverse_errors_def normalize_weights_def
      py_sum_def dict_get_def Let_def)

text \<open>
  C10, the counterexamples. A model that predicts the target exactly has the error metric
  0, the inverse error \<open>inf\<close> and the weight \<open>inf / inf = nan\<close>, and the run writes
  \<open>nan\<close> in every row of the submission. A model with the positive error metric 40 whose
  predictions for the test rows are -800 makes the run write \<open>0.0\<close> in every row,
  because the exponential underflows.
\<close>

theorem written_price_not_positive:
  "train_all [(''XGB'', exact_model)] 10 example_y 2 (Inr example_folds) =
     [(''XGB'', \<lparr>oof_preds = replicate 10 (ln 3), test_preds = [ln 3, ln 3]\<rparr>, None)] \<and>
   notebook (example_libs [(''XGB'', exact_model)]) example_train example_test =
     Inr [(Some (Num 100), NaN), (Some (Num 101), NaN)] \<and>
   train_all [(''XGB'', low_model)] 10 example_y 2 (Inr example_folds) =
     [(''XGB'', \<lparr>oof_preds = replicate 10 (ln 2), test_preds = [- 800, - 800]\<rparr>, None)] \<and>
   map_sum id errors
     (ensemble_cell example_y
        (train_all [(''XGB'', low_model)] 10 example_y 2 (Inr example_folds)))
     = Inr [(''XGB'', Fin 40)] \<and>
   notebook (example_libs [(''XGB'', low_model)]) example_train example_test =
     Inr [(Some (Num 100), Fin 0), (Some (Num 101), Fin 0)]"
  by (simp add: example_notebook train_exact ensemble_exact train_low ensemble_low
      submission_cell_def example_ids)

lemma ensemble_steady:
  "ensemble_cell example_y
     [(''XGB'', \<lparr>oof_preds = replicate 10 (ln 2), test_preds = [ln 2, ln 2]\<rparr>, None)]
   = Inr \<lparr>errors = [(''XGB'', Fin 40)], inv_errors = [(''XGB'', Fin (1 / 40))],
          norm_weights = [(''XGB'', Fin 1)], ensemble_preds = Array [Fin 2, Fin 2]\<rparr>"
  by (simp add: ensemble_cell_def smape_3_2 inverse_errors_def normalize_weights_def
      py_sum_def dict_get_def Let_def)

theorem clip_keeps_predictions_witness:
  "ensemble_cell example_y
     [(''XGB'', \<lparr>oof_preds = replicate 10 (ln 2), test_preds = [ln 2, ln 2]\<rparr>, None)]
   = Inr \<lparr>errors = [(''XGB'', Fin 40)], inv_errors = [(''XGB'', Fin (1 / 40))],
          norm_weights = [(''XGB'', Fin 1)], ensemble_preds = Array [Fin 2, Fin 2]\<rparr> \<and>
   (0 :: real) < 40 \<and>
   nd_map clip_min0 (Array [Fin 2, Fin 2]) = Array [Fin 2, Fin 2] \<and>
   submission_cell example_test (Array [Fin 2, Fin 2])
     = Inr [(Some (Num 100), Fin 2), (Some (Num 101), Fin 2)] \<and>
   snd ` set [(Some (Num 100), Fin 2), (Some (Num 101), Fin 2)] \<subseteq> set [Fin 2, Fin 2] \<and>
   (\<exists>x. Fin 2 = np_exp (Fin x)) \<and>
   ensemble_cell example_y
     [(''XGB'', \<lparr>oof_preds = replicate 10 (ln 3), test_preds = [ln 3, ln 3]\<rparr>, None)]
   = Inr \<lparr>errors = [(''XGB'', Fin 0)], inv_errors = [(''XGB'', PInf)],
          norm_weights = [(''XGB'', NaN)], ensemble_preds = Array [NaN, NaN]\<rparr> \<and>
   distinct [''XGB''] \<and>
   nd_values (Array [NaN, NaN]) = [NaN, NaN]"
proof -
  have rows: "submission_cell example_test (Array [Fin 2, Fin 2])
     = Inr [(Some (Num 100), Fin 2), (Some (Num 101), Fin 2)]"
    by (simp add: submission_cell_def example_ids)
  note steady = clip_keeps_predictions [OF ensemble_steady, of example_test]
  from steady have 1: "nd_map clip_min0 (Array [Fin 2, Fin 2]) = Array [Fin 2, Fin 2]"
    by simp
  from steady have "\<forall>rows. submission_cell example_test (Array [Fin 2, Fin 2]) = Inr rows \<longrightarrow>
            snd ` set rows \<subseteq> set (nd_values (Array [Fin 2, Fin 2]))"
    by simp
  with rows
  have 2: "snd ` set [(Some (Num 100), Fin 2), (Some (Num 101), Fin 2)] \<subseteq> set [Fin 2, Fin 2]"
    by simp
  from steady have "(\<forall>(k, e) \<in> set [(''XGB'', Fin 40)]. \<exists>x > 0. e = Fin x) \<longrightarrow>
            (\<forall>v \<in> set (nd_values (Array [Fin 2, Fin 2])). \<exists>x. v = np_exp (Fin x))"
    by auto
  then have 3: "\<exists>x. Fin 2 = np_exp (Fin x)" by simp
  note exact = clip_keeps_predictions [OF ensemble_exact, of example_test]
  from exact have "distinct (map fst [(''XGB'', \<lparr>oof_preds = replicate 10 (ln 3), test_preds = [ln 3, ln 3]\<rparr>, None :: py_error option)]) \<and>
          (\<exists>k e. (k, e) \<in> set [(''XGB'', Fin 0)] \<and> (e = Fin 0 \<or> e = NaN)) \<longrightarrow>
            (\<forall>v \<in> set (nd_values (Array [NaN, NaN])). v = NaN)"
    by simp
  then have 4: "nd_values (Array [NaN, NaN]) = [NaN, NaN]" by simp
  from ensemble_steady rows 1 2 3 ensemble_exact 4 show ?thesis by simp
qed

subsection \<open>The weights of a run\<close>






end
